theory Spec2Isabelle
  imports Main "HOL-Library.Sublist" "HOL-Library.Multiset" "HOL-Library.AList"
begin

section \<open>Errors, text helpers and the outside world\<close>

text \<open>
  A Go \<open>error\<close> is a value: the three sentinels of package \<open>repo\<close>, or an error made by
  \<open>errors.New\<close> / \<open>fmt.Errorf\<close> (and by the libraries), which is its message. Fallible
  functions return \<open>error + 'a\<close> with \<open>Inl\<close> the error; a Go function whose only result is
  an \<open>error\<close> returns \<open>error option\<close> (\<open>None\<close> is nil). A function that can panic has an
  \<open>outcome\<close>: it returns, or it panics with a message and returns nothing.
\<close>

datatype error =
    ErrNoAPIVersion
  | ErrNoBundleVersion
  | ErrNoBundleName
  | ErrorsNew string

datatype 'a outcome = Returns 'a | Panics string

definition nilPointerPanic :: string where
  "nilPointerPanic = ''runtime error: invalid memory address or nil pointer dereference''"

definition nilMapPanic :: string where
  "nilMapPanic = ''assignment to entry in nil map''"

fun Error :: "error \<Rightarrow> string" where
  "Error ErrNoAPIVersion = ''no API version specified''"
| "Error ErrNoBundleVersion = ''no bundle with the given version found''"
| "Error ErrNoBundleName = ''no bundle name found''"
| "Error (ErrorsNew msg) = msg"

type_synonym bytes = string

text \<open>\<open>strings.HasSuffix\<close>: \<open>len(s) >= len(suffix) && s[len(s)-len(suffix):] == suffix\<close>.\<close>

definition HasSuffix :: "string \<Rightarrow> string \<Rightarrow> bool" where
  "HasSuffix s suf \<longleftrightarrow> length s \<ge> length suf \<and> drop (length s - length suf) s = suf"

text \<open>A text cut at the first occurrence of a separator (where \<open>strings.Index\<close> finds
  it): the text before it and the text after it, or \<open>None\<close> when the separator does not
  occur.\<close>

fun cutFirst :: "string \<Rightarrow> string \<Rightarrow> (string \<times> string) option" where
  "cutFirst sep [] = (if sep = [] then Some ([], []) else None)"
| "cutFirst sep (c # cs) =
     (if prefix sep (c # cs) then Some ([], drop (length sep) (c # cs))
      else map_option (\<lambda>(a, b). (c # a, b)) (cutFirst sep cs))"

text \<open>\<open>strings.SplitN(s, sep, 2)\<close> for a non-empty separator: one part when the separator
  is absent, else the two parts around its first occurrence.\<close>

definition SplitN2 :: "string \<Rightarrow> string \<Rightarrow> string list" where
  "SplitN2 s sep = (case cutFirst sep s of None \<Rightarrow> [s] | Some (a, b) \<Rightarrow> [a, b])"

text \<open>\<open>strings.Contains\<close>.\<close>

definition Contains :: "string \<Rightarrow> string \<Rightarrow> bool" where
  "Contains s sub \<longleftrightarrow> cutFirst sub s \<noteq> None"

text \<open>\<open>filepath.Ext\<close>: the suffix beginning at the final dot in the final element of the
  path, empty if there is no dot. The scan runs from the end and stops at a separator.\<close>

fun Ext_scan :: "string \<Rightarrow> string \<Rightarrow> string" where
  "Ext_scan [] acc = []"
| "Ext_scan (c # rs) acc =
     (if c = CHR ''/'' then []
      else if c = CHR ''.'' then c # acc
      else Ext_scan rs (c # acc))"

definition Ext :: "string \<Rightarrow> string" where
  "Ext path = Ext_scan (rev path) []"

text \<open>\<open>%d\<close> of \<open>fmt\<close>: decimal digits, with a sign for negative numbers.\<close>

fun decimal :: "nat \<Rightarrow> string" where
  "decimal n =
     (if n < 10 then [''0123456789'' ! n]
      else decimal (n div 10) @ [''0123456789'' ! (n mod 10)])"

definition Sprintf_d :: "int \<Rightarrow> string" where
  "Sprintf_d i = (if i < 0 then CHR ''-'' # decimal (nat (- i)) else decimal (nat i))"

text \<open>\<open>%v\<close> of a \<open>[]string\<close>: the elements between brackets, separated by spaces.\<close>

fun spaced :: "string list \<Rightarrow> string" where
  "spaced [] = []"
| "spaced [x] = x"
| "spaced (x # y # ys) = x @ '' '' @ spaced (y # ys)"

definition Sprintf_v_strings :: "string list \<Rightarrow> string" where
  "Sprintf_v_strings xs = ''['' @ spaced xs @ '']''"

text \<open>
  The world the commands act on: the files written (path to contents), the lines given
  to \<open>log.Printf\<close>, the URLs handed to \<open>http.Get\<close> in the order of the calls, and the lines
  printed on standard output.
\<close>

record world =
  files :: "string \<rightharpoonup> bytes"
  logged :: "string list"
  requests :: "string list"
  printed :: "string list"

text \<open>What every component needs of the file system: \<open>filepath.Join\<close>, and whether a
  write to a path fails. \<open>ioutil.WriteFile\<close>: the file holds the data afterwards, unless
  the write fails.\<close>

record fs_env =
  filepath_Join :: "string list \<Rightarrow> string"
  WriteFile_error :: "string \<Rightarrow> error option"

definition ioutil_WriteFile ::
  "(string \<Rightarrow> error option) \<Rightarrow> string \<Rightarrow> bytes \<Rightarrow> world \<Rightarrow> error option \<times> world" where
  "ioutil_WriteFile werr dest d w =
     (case werr dest of
        Some err \<Rightarrow> (Some err, w)
      | None \<Rightarrow> (None, w\<lparr>files := (files w)(dest \<mapsto> d)\<rparr>))"

text \<open>\<open>filepath.Split\<close>: the path up to and including its last separator, and the rest.\<close>

fun Split_scan :: "string \<Rightarrow> string \<Rightarrow> string \<times> string" where
  "Split_scan [] acc = ([], acc)"
| "Split_scan (c # rs) acc =
     (if c = CHR ''/'' then (rev (c # rs), acc) else Split_scan rs (c # acc))"

definition filepath_Split :: "string \<Rightarrow> string \<times> string" where
  "filepath_Split p = Split_scan (rev p) []"

section \<open>Bundle manifests and index entries\<close>

text \<open>Package \<open>bundle\<close>: the fields of a manifest that the functions below read. The
  other fields of \<open>Bundle\<close> (\<open>Images\<close>, \<open>Parameters\<close>, \<open>Credentials\<close>) are read by none
  of them and are left out.\<close>

record InvocationImage =
  ImageType :: string
  Image :: string

record Bundle =
  Bundle_Name :: string
  Bundle_Version :: string
  Bundle_InvocationImage :: InvocationImage

text \<open>\<open>bundle.ParseBuffer\<close>: \<open>json.Unmarshal\<close> of the bytes into a \<open>Bundle\<close>; the decoder is
  a parameter.\<close>

definition ParseBuffer :: "(bytes \<Rightarrow> error + Bundle) \<Rightarrow> bytes \<Rightarrow> error + Bundle" where
  "ParseBuffer json_Unmarshal_Bundle d = json_Unmarshal_Bundle d"

record Maintainer =
  Maintainer_Name :: string
  Email :: string
  URL :: string

text \<open>\<open>repo.BundleEntry\<close>; \<open>Added\<close> is a \<open>time.Time\<close>, here a number of seconds.\<close>

record BundleEntry =
  Name :: string
  Version :: string
  Home :: string
  URLs :: "string list"
  Description :: string
  Keywords :: "string list"
  Maintainers :: "Maintainer list"
  Entry_APIVersion :: string
  Digest :: string
  Added :: int

section \<open>Reference resolution: \<open>getBundleFile\<close>\<close>

text \<open>
  A parsed reference of \<open>docker/distribution/reference\<close>: domain, path, tag and digest,
  an empty string standing for an absent part as in the library's struct.
  \<open>IsNameOnly\<close> holds when the reference is neither tagged nor digested; a reference is a
  \<open>NamedTagged\<close> when it has a tag; \<open>WithTag\<close> sets the tag (the tag given here,
  \<open>latest\<close>, is always valid, so the source's \<open>panic(err)\<close> is unreachable).
\<close>

record Reference =
  domain :: string
  path :: string
  tag :: string
  digest :: string

definition IsNameOnly :: "Reference \<Rightarrow> bool" where
  "IsNameOnly r \<longleftrightarrow> tag r = [] \<and> digest r = []"

definition NamedTagged :: "Reference \<Rightarrow> bool" where
  "NamedTagged r \<longleftrightarrow> tag r \<noteq> []"

definition WithTag :: "Reference \<Rightarrow> string \<Rightarrow> Reference" where
  "WithTag r t = r\<lparr>tag := t\<rparr>"

definition Reference_String :: "Reference \<Rightarrow> string" where
  "Reference_String r =
     (if domain r = [] then path r else domain r @ ''/'' @ path r)
     @ (if tag r = [] then [] else '':'' @ tag r)
     @ (if digest r = [] then [] else ''@'' @ digest r)"

record Response =
  StatusCode :: int
  Body :: bytes

text \<open>
  What \<open>getBundleFile\<close> calls outside this repository's sources: the home directory
  (\<open>home.DefaultRepository\<close>, \<open>home.Cache\<close>), the reference parser, \<open>http.Get\<close>, the JSON
  decoder and encoder, and the file system.
  Decoding into the nil \<open>*repo.BundleEntry\<close> leaves it nil on the document \<open>null\<close>:
  \<open>Inr None\<close>.
\<close>

record resolver_env = fs_env +
  DefaultRepository :: string
  Cache :: string
  ParseNormalizedNamed :: "string \<Rightarrow> error + Reference"
  http_Get :: "string \<Rightarrow> error + Response"
  Decode_BundleEntry :: "bytes \<Rightarrow> error + BundleEntry option"
  Decode_Bundle :: "bytes \<Rightarrow> error + Bundle"
  Marshal_Bundle :: "Bundle \<Rightarrow> error + bytes"

definition http_StatusOK :: int where
  "http_StatusOK = 200"

text \<open>\<open>bundle.ParseReader\<close> and \<open>Bundle.WriteFile\<close>.\<close>

definition ParseReader :: "resolver_env \<Rightarrow> bytes \<Rightarrow> error + Bundle" where
  "ParseReader env r = Decode_Bundle env r"

definition Bundle_WriteFile ::
  "resolver_env \<Rightarrow> Bundle \<Rightarrow> string \<Rightarrow> world \<Rightarrow> error option \<times> world" where
  "Bundle_WriteFile env b dest w =
     (case Marshal_Bundle env b of
        Inl err \<Rightarrow> (Some err, w)
      | Inr d \<Rightarrow> ioutil_WriteFile (WriteFile_error env) dest d w)"

text \<open>The line logged for a mirror that answers with another status than 200, and the
  path of the cached manifest, \<open>filepath.Join(home.Cache(), "<name>-<version>.json")\<close>.\<close>

definition nonOKLine :: "string \<Rightarrow> Response \<Rightarrow> string" where
  "nonOKLine url resp =
     ''request to '' @ url @ '' responded with a non-200 status code: ''
     @ Sprintf_d (StatusCode resp)"

definition cachePath :: "resolver_env \<Rightarrow> Bundle \<Rightarrow> string" where
  "cachePath env bundle =
     filepath_Join env
       [Cache env, Bundle_Name bundle @ ''-'' @ Bundle_Version bundle @ ''.json'']"

text \<open>The loop of \<open>getBundleFile\<close> over \<open>entry.URLs\<close>, on the URLs still to try.\<close>

fun fetchMirrors ::
  "resolver_env \<Rightarrow> BundleEntry \<Rightarrow> string list \<Rightarrow> world \<Rightarrow> (error + string) \<times> world" where
  "fetchMirrors env entry [] w =
     (Inl (ErrorsNew (''unable to fetch '' @ Name entry @ '' '' @ Version entry
            @ '': no requests to the following URLs succeeded: ''
            @ Sprintf_v_strings (URLs entry))), w)"
| "fetchMirrors env entry (url # urls) w =
     (let w1 = w\<lparr>requests := requests w @ [url]\<rparr> in
      case http_Get env url of
        Inl err \<Rightarrow> (Inl err, w1)
      | Inr resp \<Rightarrow>
          if StatusCode resp \<noteq> http_StatusOK then
            fetchMirrors env entry urls (w1\<lparr>logged := logged w1 @ [nonOKLine url resp]\<rparr>)
          else
            (case ParseReader env (Body resp) of
               Inl err \<Rightarrow> (Inl err, w1)
             | Inr bundle \<Rightarrow>
                 let bundleFilepath = cachePath env bundle
                 in (case Bundle_WriteFile env bundle bundleFilepath w1 of
                       (Some err, w2) \<Rightarrow> (Inl err, w2)
                     | (None, w2) \<Rightarrow> (Inr bundleFilepath, w2))))"

text \<open>The protocol and the name of a bundle reference: the \<open>strings.SplitN\<close> step.\<close>

definition protoAndName :: "string \<Rightarrow> string \<times> string" where
  "protoAndName bundleName =
     (let parts = SplitN2 bundleName ''://'' in
      if length parts = 2 then (parts ! 0, parts ! 1) else (''https'', parts ! 0))"

text \<open>The reference to fetch: \<open>latest\<close> for a name-only reference, the reference itself
  when it is tagged, an error otherwise.\<close>

definition taggedRef :: "Reference \<Rightarrow> error + Reference" where
  "taggedRef normalizedRef =
     (if IsNameOnly normalizedRef then Inr (WithTag normalizedRef ''latest'')
      else if NamedTagged normalizedRef then Inr normalizedRef
      else Inl (ErrorsNew (''unsupported image name: '' @ Reference_String normalizedRef)))"

definition lookupURL :: "resolver_env \<Rightarrow> string \<Rightarrow> Reference \<Rightarrow> string" where
  "lookupURL env proto ref =
     (let domain0 = domain ref;
          domain1 = (if domain0 = [] then DefaultRepository env else domain0)
      in proto @ ''://'' @ domain1 @ ''/repositories/'' @ path ref @ ''/tags/'' @ tag ref)"

definition getBundleFile ::
  "resolver_env \<Rightarrow> string \<Rightarrow> world \<Rightarrow> (error + string) outcome \<times> world" where
  "getBundleFile env bundleName w =
     (case protoAndName bundleName of (proto, name) \<Rightarrow>
      case ParseNormalizedNamed env name of
        Inl err \<Rightarrow>
          (Returns (Inl (ErrorsNew (''failed to parse image name: '' @ name @ '': '' @ Error err))), w)
      | Inr normalizedRef \<Rightarrow>
          (case taggedRef normalizedRef of
             Inl err \<Rightarrow> (Returns (Inl err), w)
           | Inr ref \<Rightarrow>
               let url = lookupURL env proto ref;
                   w1 = w\<lparr>requests := requests w @ [url]\<rparr>
               in (case http_Get env url of
                     Inl err \<Rightarrow> (Returns (Inl err), w1)
                   | Inr resp \<Rightarrow>
                       if StatusCode resp \<noteq> http_StatusOK then
                         (Returns (Inl (ErrorsNew (nonOKLine url resp))), w1)
                       else
                         (case Decode_BundleEntry env (Body resp) of
                            Inl err \<Rightarrow> (Returns (Inl err), w1)
                          | Inr None \<Rightarrow> (Panics nilPointerPanic, w1)
                          | Inr (Some entry) \<Rightarrow>
                              (case fetchMirrors env entry (URLs entry) w1 of
                                 (r, w2) \<Rightarrow> (Returns r, w2))))))"

section \<open>Installation: \<open>newInstallCmd\<close>\<close>

text \<open>\<open>claim.Claim\<close>: the fields the command sets; what else package \<open>claim\<close> keeps in
  a claim (its result and timestamps) is the record's extension. \<open>'p\<close> is the decoded
  parameter map, \<open>map[string]interface{}\<close>.\<close>

record 'p Claim =
  Claim_Name :: string
  Claim_Bundle :: string
  Claim_ImageType :: string
  Claim_Parameters :: 'p

text \<open>
  The collaborators of the command: the loader (\<open>loader.New\<close> gives an error or a loader,
  which is what its \<open>Load\<close> returns), \<open>prepareDriver\<close>, \<open>loadCredentials\<close>, \<open>claim.New\<close>,
  the install action (\<open>Run\<close> gets the claim by pointer, so it returns the claim as it
  leaves it, with its error), the claim storage's \<open>Store\<close>, \<open>ioutil.ReadFile\<close> and the two
  decoders of parameter files.
\<close>

record ('p, 'cr, 'dr, 'x) install_env =
  loader_New :: "string \<Rightarrow> error + (error + Bundle)"
  prepareDriver :: "string \<Rightarrow> error + 'dr"
  loadCredentials :: "string \<Rightarrow> error + 'cr"
  claim_New :: "string \<Rightarrow> error + ('p, 'x) Claim_scheme"
  Install_Run :: "'dr \<Rightarrow> ('p, 'x) Claim_scheme \<Rightarrow> 'cr \<Rightarrow> ('p, 'x) Claim_scheme \<times> error option"
  Store :: "('p, 'x) Claim_scheme \<Rightarrow> error option"
  ioutil_ReadFile :: "string \<Rightarrow> error + bytes"
  toml_Unmarshal :: "bytes \<Rightarrow> error + 'p"
  json_Unmarshal :: "bytes \<Rightarrow> error + 'p"

text \<open>The flags of the command.\<close>

record install_flags =
  installDriver :: string
  credentialsFile :: string
  valuesFile :: string
  bundleFile :: string

definition bundleFileOrArg2 ::
  "resolver_env \<Rightarrow> string list \<Rightarrow> string \<Rightarrow> world \<Rightarrow> (error + string) outcome \<times> world" where
  "bundleFileOrArg2 renv args bundleFile0 w =
     (if length args < 1 then
        (Returns (Inl (ErrorsNew (''This command requires at least one argument: NAME (name for the installation). It also requires a BUNDLE (CNAB bundle name) or file (using -f)''
           @ [CHR 0x0A] @ ''Valid inputs:'' @ [CHR 0x0A, CHR 0x09] @ ''$ duffle install NAME BUNDLE''
           @ [CHR 0x0A, CHR 0x09] @ ''$ duffle install NAME -f path-to-bundle.json''))), w)
      else if length args = 2 \<and> bundleFile0 \<noteq> [] then
        (Returns (Inl (ErrorsNew ''please use either -f or specify a BUNDLE, but not both'')), w)
      else if length args < 2 \<and> bundleFile0 = [] then
        (Returns (Inl (ErrorsNew ''required arguments are NAME (name of the installation) and BUNDLE (CNAB bundle name) or file'')), w)
      else if length args = 2 then getBundleFile renv (args ! 1) w
      else (Returns (Inr bundleFile0), w))"

definition validateDockerish :: "string \<Rightarrow> error option" where
  "validateDockerish s =
     (if \<not> Contains s '':'' then Some (ErrorsNew ''version is required'') else None)"

definition validateImage :: "'a InvocationImage_scheme \<Rightarrow> error option" where
  "validateImage img =
     (if ImageType img = ''docker'' \<or> ImageType img = ''oci'' then validateDockerish (Image img)
      else None)"

definition parseValues :: "('p, 'cr, 'dr, 'x, 'z) install_env_scheme \<Rightarrow> string \<Rightarrow> error + 'p" where
  "parseValues env file =
     (let ext = Ext file in
      if ext = ''.toml'' then
        (case ioutil_ReadFile env file of Inl err \<Rightarrow> Inl err | Inr d \<Rightarrow> toml_Unmarshal env d)
      else if ext = ''.json'' then
        (case ioutil_ReadFile env file of Inl err \<Rightarrow> Inl err | Inr d \<Rightarrow> json_Unmarshal env d)
      else Inl (ErrorsNew (''no decoder for '' @ ext)))"

definition loadBundle :: "('p, 'cr, 'dr, 'x, 'z) install_env_scheme \<Rightarrow> string \<Rightarrow> error + Bundle" where
  "loadBundle env file = (case loader_New env file of Inl err \<Rightarrow> Inl err | Inr l \<Rightarrow> l)"

text \<open>
  The end of \<open>RunE\<close>, from \<open>inst.Run\<close> on: the action runs, the claim is stored, and the
  error is chosen. The result is the error returned, the claims given to \<open>Store\<close> in the
  order of the calls, and the world.
\<close>

definition runAndStore ::
  "('p, 'cr, 'dr, 'x, 'z) install_env_scheme \<Rightarrow> 'dr \<Rightarrow> ('p, 'x) Claim_scheme \<Rightarrow> 'cr \<Rightarrow> world
   \<Rightarrow> error option \<times> ('p, 'x) Claim_scheme list \<times> world" where
  "runAndStore env driverImpl c creds w =
     (let w1 = w\<lparr>printed := printed w @ [''Executing install action...'']\<rparr> in
      case Install_Run env driverImpl c creds of (c1, err) \<Rightarrow>
        let err2 = Store env c1 in
        (case err of
           Some e \<Rightarrow> (Some (ErrorsNew (''Install step failed: '' @ Error e)), [c1], w1)
         | None \<Rightarrow> (err2, [c1], w1)))"

text \<open>\<open>RunE\<close> of the install command up to the construction of the claim: the bundle
  file, the bundle, the image check, the driver, the credentials and the claim. The
  result is an early \<open>return err\<close> or the driver, the claim and the credentials that
  \<open>inst.Run\<close> is about to receive.\<close>

definition prepareInstall ::
  "('p, 'cr, 'dr, 'x, 'z) install_env_scheme \<Rightarrow> resolver_env \<Rightarrow> string list \<Rightarrow> install_flags \<Rightarrow> world
   \<Rightarrow> (error + 'dr \<times> ('p, 'x) Claim_scheme \<times> 'cr) outcome \<times> world" where
  "prepareInstall env renv args flags w =
     (case bundleFileOrArg2 renv args (bundleFile flags) w of
        (Panics msg, w1) \<Rightarrow> (Panics msg, w1)
      | (Returns (Inl err), w1) \<Rightarrow> (Returns (Inl err), w1)
      | (Returns (Inr bundleFile1), w1) \<Rightarrow>
     let installationName = args ! 0 in
     (case loadBundle env bundleFile1 of
        Inl err \<Rightarrow> (Returns (Inl err), w1)
      | Inr bundle \<Rightarrow>
     (case validateImage (Bundle_InvocationImage bundle) of
        Some err \<Rightarrow> (Returns (Inl err), w1)
      | None \<Rightarrow>
     (case prepareDriver env (installDriver flags) of
        Inl err \<Rightarrow> (Returns (Inl err), w1)
      | Inr driverImpl \<Rightarrow>
     (case loadCredentials env (credentialsFile flags) of
        Inl err \<Rightarrow> (Returns (Inl err), w1)
      | Inr creds \<Rightarrow>
     (case claim_New env installationName of
        Inl err \<Rightarrow> (Returns (Inl err), w1)
      | Inr c0 \<Rightarrow>
     let c1 = c0\<lparr>Claim_Bundle := Image (Bundle_InvocationImage bundle),
                 Claim_ImageType := ImageType (Bundle_InvocationImage bundle)\<rparr> in
     (if valuesFile flags \<noteq> [] then
        (case parseValues env (valuesFile flags) of
           Inl err \<Rightarrow> (Returns (Inl err), w1)
         | Inr vals \<Rightarrow> (Returns (Inr (driverImpl, c1\<lparr>Claim_Parameters := vals\<rparr>, creds)), w1))
      else (Returns (Inr (driverImpl, c1, creds)), w1))))))))"

text \<open>\<open>RunE\<close> of the install command, on the positional arguments and the flags: the error
  returned (or the panic), the claims given to \<open>Store\<close>, and the world.\<close>

definition install ::
  "('p, 'cr, 'dr, 'x, 'z) install_env_scheme \<Rightarrow> resolver_env \<Rightarrow> string list \<Rightarrow> install_flags \<Rightarrow> world
   \<Rightarrow> error option outcome \<times> ('p, 'x) Claim_scheme list \<times> world" where
  "install env renv args flags w =
     (case prepareInstall env renv args flags w of
        (Panics msg, w1) \<Rightarrow> (Panics msg, [], w1)
      | (Returns (Inl err), w1) \<Rightarrow> (Returns (Some err), [], w1)
      | (Returns (Inr (driverImpl, c, creds)), w1) \<Rightarrow>
          (case runAndStore env driverImpl c creds w1 of
             (err, stored, w2) \<Rightarrow> (Returns err, stored, w2)))"

section \<open>The index catalog: package \<open>repo\<close>, \<open>index.go\<close>\<close>

text \<open>
  The semantic-version library (\<open>Masterminds/semver\<close>) is not part of the repository: its
  three entry points are parameters. \<open>'v\<close> is a parsed version; a parsed constraint is
  given by its \<open>Check\<close>, a predicate on versions.
\<close>

record 'v lib =
  NewVersion :: "string \<Rightarrow> error + 'v"
  LessThan :: "'v \<Rightarrow> 'v \<Rightarrow> bool"
  NewConstraint :: "string \<Rightarrow> error + ('v \<Rightarrow> bool)"

subsection \<open>Package \<open>sort\<close>\<close>

text \<open>
  \<open>sort.Sort\<close> is the function of the Go library, as in the releases of the repository's
  time (to Go 1.18): \<open>quickSort\<close> with a depth limit, which partitions around a pivot
  (\<open>doPivot\<close>), falls back on \<open>heapSort\<close> when the limit is reached, and sorts a slice of at
  most 12 elements by a pass with gap 6 followed by \<open>insertionSort\<close>. Later releases have
  another algorithm, which sorts a slice of at most 12 elements by \<open>insertionSort\<close> alone.
  Indices are natural numbers: in the calls below no index and no difference of indices
  is negative. \<open>'d\<close> is the data behind the interface, and \<open>Swap\<close> returns the data after
  the exchange.
\<close>

record 'd Interface =
  Len :: "'d \<Rightarrow> nat"
  Less :: "'d \<Rightarrow> nat \<Rightarrow> nat \<Rightarrow> bool"
  Swap :: "'d \<Rightarrow> nat \<Rightarrow> nat \<Rightarrow> 'd"

text \<open>\<open>sort.Reverse\<close>: \<open>Less(i, j)\<close> of the reversed data is \<open>Less(j, i)\<close> of the data.\<close>

definition Reverse :: "'d Interface \<Rightarrow> 'd Interface" where
  "Reverse data = data\<lparr>Less := (\<lambda>d i j. Less data d j i)\<rparr>"

text \<open>The inner loop of \<open>insertionSort\<close>,
  \<open>for j := i; j > a && data.Less(j, j-1); j-- { data.Swap(j, j-1) }\<close>, from \<open>j\<close> on.\<close>

fun insertionSort_inner :: "'d Interface \<Rightarrow> nat \<Rightarrow> nat \<Rightarrow> 'd \<Rightarrow> 'd" where
  "insertionSort_inner data a 0 d = d"
| "insertionSort_inner data a (Suc j) d =
     (if Suc j > a \<and> Less data d (Suc j) j
      then insertionSort_inner data a j (Swap data d (Suc j) j)
      else d)"

definition insertionSort :: "'d Interface \<Rightarrow> nat \<Rightarrow> nat \<Rightarrow> 'd \<Rightarrow> 'd" where
  "insertionSort data a b d = foldl (\<lambda>d i. insertionSort_inner data a i d) d [a + 1..<b]"

text \<open>\<open>siftDown\<close>: the loop that moves \<open>data[first+root]\<close> down the heap on
  \<open>data[first+lo, first+hi)\<close>, from \<open>root\<close> on.\<close>

function siftDown :: "'d Interface \<Rightarrow> nat \<Rightarrow> nat \<Rightarrow> nat \<Rightarrow> 'd \<Rightarrow> 'd" where
  "siftDown data root hi first d =
     (let child = 2 * root + 1 in
      if child \<ge> hi then d
      else
        (let child = (if child + 1 < hi \<and> Less data d (first + child) (first + child + 1)
                      then child + 1 else child) in
         if \<not> Less data d (first + root) (first + child) then d
         else siftDown data child hi first (Swap data d (first + root) (first + child))))"
  by pat_completeness auto
termination
  by (relation "measure (\<lambda>(data, root, hi, first, d). hi - root)") auto

declare siftDown.simps [simp del]

text \<open>\<open>heapSort\<close>: the heap is built by \<open>for i := (hi - 1) / 2; i >= 0; i--\<close>, and the
  elements are popped by \<open>for i := hi - 1; i >= 0; i--\<close>.\<close>

definition heapSort :: "'d Interface \<Rightarrow> nat \<Rightarrow> nat \<Rightarrow> 'd \<Rightarrow> 'd" where
  "heapSort data a b d =
     (let first = a; lo = 0; hi = b - a;
          built = foldl (\<lambda>d i. siftDown data i hi first d) d (rev [0..<(hi - 1) div 2 + 1])
      in foldl (\<lambda>d i. siftDown data lo i first (Swap data d first (first + i))) built
           (rev [0..<hi]))"

text \<open>\<open>medianOfThree\<close> moves the median of \<open>data[m0]\<close>, \<open>data[m1]\<close>, \<open>data[m2]\<close> into
  \<open>data[m1]\<close>.\<close>

definition medianOfThree :: "'d Interface \<Rightarrow> nat \<Rightarrow> nat \<Rightarrow> nat \<Rightarrow> 'd \<Rightarrow> 'd" where
  "medianOfThree data m1 m0 m2 d =
     (let d1 = (if Less data d m1 m0 then Swap data d m1 m0 else d) in
      if Less data d1 m2 m1 then
        (let d2 = Swap data d1 m2 m1 in
         if Less data d2 m1 m0 then Swap data d2 m1 m0 else d2)
      else d1)"

text \<open>
  The loops of \<open>doPivot\<close> that only move an index:
  \<open>for ; a < c && data.Less(a, pivot); a++ {}\<close> (it stands twice in \<open>doPivot\<close>),
  \<open>for ; b < c && !data.Less(pivot, b); b++ {}\<close>,
  \<open>for ; b < c && data.Less(pivot, c-1); c-- {}\<close> and
  \<open>for ; a < b && !data.Less(b-1, pivot); b-- {}\<close>.
\<close>

function doPivot_below :: "'d Interface \<Rightarrow> 'd \<Rightarrow> nat \<Rightarrow> nat \<Rightarrow> nat \<Rightarrow> nat" where
  "doPivot_below data d pivot a c =
     (if a < c \<and> Less data d a pivot then doPivot_below data d pivot (a + 1) c else a)"
  by pat_completeness auto
termination
  by (relation "measure (\<lambda>(data, d, pivot, a, c). c - a)") auto

function doPivot_notAbove :: "'d Interface \<Rightarrow> 'd \<Rightarrow> nat \<Rightarrow> nat \<Rightarrow> nat \<Rightarrow> nat" where
  "doPivot_notAbove data d pivot b c =
     (if b < c \<and> \<not> Less data d pivot b then doPivot_notAbove data d pivot (b + 1) c else b)"
  by pat_completeness auto
termination
  by (relation "measure (\<lambda>(data, d, pivot, b, c). c - b)") auto

function doPivot_above :: "'d Interface \<Rightarrow> 'd \<Rightarrow> nat \<Rightarrow> nat \<Rightarrow> nat \<Rightarrow> nat" where
  "doPivot_above data d pivot b c =
     (if b < c \<and> Less data d pivot (c - 1) then doPivot_above data d pivot b (c - 1) else c)"
  by pat_completeness auto
termination
  by (relation "measure (\<lambda>(data, d, pivot, b, c). c)") auto

function doPivot_equal :: "'d Interface \<Rightarrow> 'd \<Rightarrow> nat \<Rightarrow> nat \<Rightarrow> nat \<Rightarrow> nat" where
  "doPivot_equal data d pivot a b =
     (if a < b \<and> \<not> Less data d (b - 1) pivot then doPivot_equal data d pivot a (b - 1) else b)"
  by pat_completeness auto
termination
  by (relation "measure (\<lambda>(data, d, pivot, a, b). b)") auto

declare doPivot_below.simps [simp del] doPivot_notAbove.simps [simp del]
  doPivot_above.simps [simp del] doPivot_equal.simps [simp del]

text \<open>The partitioning loop of \<open>doPivot\<close>: the two index loops, then
  \<open>if b >= c { break }\<close>, then \<open>data.Swap(b, c-1); b++; c--\<close>. It ends because the
  first index loop does not lower \<open>b\<close> and the second does not raise \<open>c\<close>.\<close>

function doPivot_partition :: "'d Interface \<Rightarrow> nat \<Rightarrow> nat \<Rightarrow> nat \<Rightarrow> 'd \<Rightarrow> nat \<times> nat \<times> 'd" where
  "doPivot_partition data pivot b c d =
     (let b = doPivot_notAbove data d pivot b c;
          c = doPivot_above data d pivot b c
      in if b \<ge> c then (b, c, d)
         else doPivot_partition data pivot (b + 1) (c - 1) (Swap data d b (c - 1)))"
  by pat_completeness auto
termination
proof (relation "measure (\<lambda>(data, pivot, b, c, d). c - b)", goal_cases)
  case 1
  show ?case by simp
next
  case (2 data pivot b c d x xa)
  have "b \<le> doPivot_notAbove data d pivot b c"
    by (induction data d pivot b c rule: doPivot_notAbove.induct)
       (subst doPivot_notAbove.simps, auto)
  moreover have "doPivot_above data d pivot x c \<le> c"
    by (induction data d pivot x c rule: doPivot_above.induct)
       (subst doPivot_above.simps, auto)
  ultimately show ?case using 2 by simp
qed

text \<open>The loop of \<open>doPivot\<close> that protects against many duplicates: the two index loops,
  then \<open>if a >= b { break }\<close>, then \<open>data.Swap(a, b-1); a++; b--\<close>.\<close>

function doPivot_protect :: "'d Interface \<Rightarrow> nat \<Rightarrow> nat \<Rightarrow> nat \<Rightarrow> 'd \<Rightarrow> nat \<times> 'd" where
  "doPivot_protect data pivot a b d =
     (let b = doPivot_equal data d pivot a b;
          a = doPivot_below data d pivot a b
      in if a \<ge> b then (b, d)
         else doPivot_protect data pivot (a + 1) (b - 1) (Swap data d a (b - 1)))"
  by pat_completeness auto
termination
proof (relation "measure (\<lambda>(data, pivot, a, b, d). b - a)", goal_cases)
  case 1
  show ?case by simp
next
  case (2 data pivot a b d x xa)
  have "doPivot_equal data d pivot a b \<le> b"
    by (induction data d pivot a b rule: doPivot_equal.induct)
       (subst doPivot_equal.simps, auto)
  moreover have "a \<le> doPivot_below data d pivot a x"
    by (induction data d pivot a x rule: doPivot_below.induct)
       (subst doPivot_below.simps, auto)
  ultimately show ?case using 2 by simp
qed

declare doPivot_partition.simps [simp del] doPivot_protect.simps [simp del]

text \<open>
  The part of \<open>doPivot\<close> between the two loops: \<open>protect := hi-c < 5\<close>, and when that is
  false and \<open>hi-c < (hi-lo)/4\<close>, the three tests of points for equality to the pivot,
  which count \<open>dups\<close>, and \<open>protect = dups > 1\<close>. The result is \<open>b\<close>, \<open>c\<close>, \<open>protect\<close> and
  the data.
\<close>

definition doPivot_dups ::
  "'d Interface \<Rightarrow> nat \<Rightarrow> nat \<Rightarrow> nat \<Rightarrow> nat \<Rightarrow> nat \<Rightarrow> nat \<Rightarrow> 'd \<Rightarrow> nat \<times> nat \<times> bool \<times> 'd" where
  "doPivot_dups data lo hi m pivot b c d =
     (if hi - c < 5 then (b, c, True, d)
      else if hi - c < (hi - lo) div 4 then
        (let (c1, d1, n1) = (if \<not> Less data d pivot (hi - 1)
                             then (c + 1, Swap data d c (hi - 1), 1 :: nat) else (c, d, 0));
             (b2, n2) = (if \<not> Less data d1 (b - 1) pivot then (b - 1, n1 + 1) else (b, n1));
             (b3, d3, n3) = (if \<not> Less data d1 m pivot
                             then (b2 - 1, Swap data d1 m (b2 - 1), n2 + 1) else (b2, d1, n2))
         in (b3, c1, n3 > 1, d3))
      else (b, c, False, d))"

text \<open>\<open>doPivot\<close>: the median of three (of three medians of three on more than 40
  elements) goes to \<open>data[lo]\<close>, the slice is partitioned around it, and the pivot is
  swapped into the middle. The result is \<open>midlo\<close>, \<open>midhi\<close> and the data.\<close>

definition doPivot :: "'d Interface \<Rightarrow> nat \<Rightarrow> nat \<Rightarrow> 'd \<Rightarrow> nat \<times> nat \<times> 'd" where
  "doPivot data lo hi d =
     (let m = (lo + hi) div 2;
          d1 = (if hi - lo > 40 then
                  (let s = (hi - lo) div 8 in
                   medianOfThree data (hi - 1) (hi - 1 - s) (hi - 1 - 2 * s)
                     (medianOfThree data m (m - s) (m + s)
                        (medianOfThree data lo (lo + s) (lo + 2 * s) d)))
                else d);
          d2 = medianOfThree data lo m (hi - 1) d1;
          pivot = lo;
          a = doPivot_below data d2 pivot (lo + 1) (hi - 1);
          (b, c, d3) = doPivot_partition data pivot a (hi - 1) d2;
          (b, c, protect, d4) = doPivot_dups data lo hi m pivot b c d3;
          (b, d5) = (if protect then doPivot_protect data pivot a b d4 else (b, d4))
      in (b - 1, c, Swap data d5 pivot (b - 1)))"

text \<open>The pass with gap 6,
  \<open>for i := a + 6; i < b; i++ { if data.Less(i, i-6) { data.Swap(i, i-6) } }\<close>.\<close>

definition shellPass :: "'d Interface \<Rightarrow> nat \<Rightarrow> nat \<Rightarrow> 'd \<Rightarrow> 'd" where
  "shellPass data a b d =
     foldl (\<lambda>d i. if Less data d i (i - 6) then Swap data d i (i - 6) else d) d [a + 6..<b]"

text \<open>
  \<open>quickSort\<close>. Every round of its loop \<open>for b-a > 12\<close> lowers \<open>maxDepth\<close>, sorts one side
  of the pivot by a call and goes on with the other side, which is the second call
  here. After the loop, a slice of more than one element gets the pass with gap 6 and
  \<open>insertionSort\<close>.
\<close>

fun quickSort :: "'d Interface \<Rightarrow> nat \<Rightarrow> nat \<Rightarrow> nat \<Rightarrow> 'd \<Rightarrow> 'd" where
  "quickSort data a b 0 d =
     (if b - a > 12 then heapSort data a b d
      else if b - a > 1 then insertionSort data a b (shellPass data a b d)
      else d)"
| "quickSort data a b (Suc maxDepth) d =
     (if b - a > 12 then
        (let (mlo, mhi, d1) = doPivot data a b d in
         if mlo - a < b - mhi
         then quickSort data mhi b maxDepth (quickSort data a mlo maxDepth d1)
         else quickSort data a mlo maxDepth (quickSort data mhi b maxDepth d1))
      else if b - a > 1 then insertionSort data a b (shellPass data a b d)
      else d)"

text \<open>\<open>maxDepth\<close>: twice the number of rounds of \<open>for i := n; i > 0; i >>= 1\<close>.\<close>

fun maxDepth_loop :: "nat \<Rightarrow> nat \<Rightarrow> nat" where
  "maxDepth_loop i depth = (if i > 0 then maxDepth_loop (i div 2) (depth + 1) else depth)"

declare maxDepth_loop.simps [simp del]

definition maxDepth :: "nat \<Rightarrow> nat" where
  "maxDepth n = maxDepth_loop n 0 * 2"

definition sort_Sort :: "'d Interface \<Rightarrow> 'd \<Rightarrow> 'd" where
  "sort_Sort data d = (let n = Len data d in quickSort data 0 n (maxDepth n) d)"

subsection \<open>\<open>BundleEntries\<close> and \<open>IndexFile\<close>\<close>

text \<open>\<open>BundleEntries\<close> is a slice of entries with the three methods of \<open>sort.Interface\<close>.
  \<open>Less\<close>: a version that fails to parse is less than anything.\<close>

type_synonym BundleEntries = "BundleEntry list"

definition BundleEntries_Less :: "('v, 'z) lib_scheme \<Rightarrow> BundleEntries \<Rightarrow> nat \<Rightarrow> nat \<Rightarrow> bool" where
  "BundleEntries_Less lib c a b =
     (case NewVersion lib (Version (c ! a)) of
        Inl err \<Rightarrow> True
      | Inr i \<Rightarrow>
          (case NewVersion lib (Version (c ! b)) of
             Inl err \<Rightarrow> False
           | Inr j \<Rightarrow> LessThan lib i j))"

definition BundleEntries_Swap :: "BundleEntries \<Rightarrow> nat \<Rightarrow> nat \<Rightarrow> BundleEntries" where
  "BundleEntries_Swap c i j = c[i := c ! j, j := c ! i]"

definition BundleEntries_Interface :: "('v, 'z) lib_scheme \<Rightarrow> BundleEntries Interface" where
  "BundleEntries_Interface lib =
     \<lparr>Len = length, Less = BundleEntries_Less lib, Swap = BundleEntries_Swap\<rparr>"

text \<open>
  \<open>IndexFile\<close>. The map \<open>Entries\<close> is a list of pairs, a key with its slice, and a
  \<open>range\<close> over the map visits the pairs in the order of the list, so that what holds
  for every list holds for every order of iteration. \<open>None\<close> is the nil map, which reads
  as an empty one and panics when it is assigned to. The entries are values: a nil
  \<open>*BundleEntry\<close> in a slice is outside the model.
\<close>

record IndexFile =
  APIVersion :: string
  Generated :: int
  Entries :: "(string \<times> BundleEntries) list option"
  PublicKeys :: "string list"

definition entriesOf :: "IndexFile \<Rightarrow> (string \<times> BundleEntries) list" where
  "entriesOf i = (case Entries i of None \<Rightarrow> [] | Some m \<Rightarrow> m)"

definition APIVersionV1 :: string where
  "APIVersionV1 = ''v1''"

definition IndexPath :: string where
  "IndexPath = ''index.json''"

definition NewIndexFile :: "int \<Rightarrow> IndexFile" where
  "NewIndexFile now =
     \<lparr>APIVersion = APIVersionV1, Generated = now, Entries = Some [], PublicKeys = []\<rparr>"

definition Add :: "IndexFile \<Rightarrow> BundleEntry \<Rightarrow> IndexFile outcome" where
  "Add i e =
     (case Entries i of
        None \<Rightarrow> Panics nilMapPanic
      | Some m \<Rightarrow>
          (case map_of m (Name e) of
             None \<Rightarrow> Returns (i\<lparr>Entries := Some (AList.update (Name e) [e] m)\<rparr>)
           | Some ee \<Rightarrow> Returns (i\<lparr>Entries := Some (AList.update (Name e) (ee @ [e]) m)\<rparr>)))"

text \<open>The loop of \<open>Get\<close> over the entries of a name. \<open>constraint\<close> is \<open>None\<close> when
  \<open>semver.NewConstraint("*")\<close> failed, its error dropped: the pointer is nil and
  \<open>constraint.Check\<close> panics.\<close>

fun Get_loop ::
  "('v, 'z) lib_scheme \<Rightarrow> ('v \<Rightarrow> bool) option \<Rightarrow> string \<Rightarrow> string \<Rightarrow> BundleEntries
   \<Rightarrow> (error + BundleEntry) outcome" where
  "Get_loop lib constraint name version [] =
     Returns (Inl (ErrorsNew (''No bundle version found for '' @ name @ ''-'' @ version)))"
| "Get_loop lib constraint name version (ver # vs) =
     (case NewVersion lib (Version ver) of
        Inl err \<Rightarrow> Get_loop lib constraint name version vs
      | Inr test \<Rightarrow>
          (case constraint of
             None \<Rightarrow> Panics nilPointerPanic
           | Some check \<Rightarrow>
               if check test then Returns (Inr ver)
               else Get_loop lib constraint name version vs))"

definition Get ::
  "('v, 'z) lib_scheme \<Rightarrow> IndexFile \<Rightarrow> string \<Rightarrow> string \<Rightarrow> (error + BundleEntry) outcome" where
  "Get lib i name version =
     (case map_of (entriesOf i) name of
        None \<Rightarrow> Returns (Inl ErrNoBundleName)
      | Some vs \<Rightarrow>
          if length vs = 0 then Returns (Inl ErrNoBundleVersion)
          else if length version = 0 then
            (case NewConstraint lib ''*'' of
               Inl err \<Rightarrow> Get_loop lib None name version vs
             | Inr c \<Rightarrow> Get_loop lib (Some c) name version vs)
          else
            (case NewConstraint lib version of
               Inl err \<Rightarrow> Returns (Inl err)
             | Inr c \<Rightarrow> Get_loop lib (Some c) name version vs))"

text \<open>\<open>Has\<close>: \<open>err == nil\<close> of \<open>Get\<close>.\<close>

definition Has :: "('v, 'z) lib_scheme \<Rightarrow> IndexFile \<Rightarrow> string \<Rightarrow> string \<Rightarrow> bool outcome" where
  "Has lib i name version =
     (case Get lib i name version of
        Panics msg \<Rightarrow> Panics msg
      | Returns (Inr e) \<Rightarrow> Returns True
      | Returns (Inl err) \<Rightarrow> Returns False)"

text \<open>\<open>SortEntries\<close>: \<open>sort.Sort(sort.Reverse(versions))\<close> on the slice of every name.\<close>

definition sortVersions :: "('v, 'z) lib_scheme \<Rightarrow> BundleEntries \<Rightarrow> BundleEntries" where
  "sortVersions lib versions =
     sort_Sort (Reverse (BundleEntries_Interface lib)) versions"

definition SortEntries :: "('v, 'z) lib_scheme \<Rightarrow> IndexFile \<Rightarrow> IndexFile" where
  "SortEntries lib i =
     i\<lparr>Entries :=
         map_option (map (\<lambda>(name, versions). (name, sortVersions lib versions))) (Entries i)\<rparr>"

text \<open>\<open>Merge\<close>: the body of the inner loop, the inner loop over the entries of one name,
  and the outer loop over the slices of the other index. \<open>entriesUnder\<close> is the read
  \<open>i.Entries[name]\<close>, nil for a name that is not a key.\<close>

definition entriesUnder :: "IndexFile \<Rightarrow> string \<Rightarrow> BundleEntries" where
  "entriesUnder i name = (case map_of (entriesOf i) name of None \<Rightarrow> [] | Some e \<Rightarrow> e)"

definition Merge_entry :: "('v, 'z) lib_scheme \<Rightarrow> IndexFile \<Rightarrow> BundleEntry \<Rightarrow> IndexFile outcome" where
  "Merge_entry lib i cv =
     (case Has lib i (Name cv) (Version cv) of
        Panics msg \<Rightarrow> Panics msg
      | Returns True \<Rightarrow> Returns i
      | Returns False \<Rightarrow>
          (let e = entriesUnder i (Name cv) in
           case Entries i of
             None \<Rightarrow> Panics nilMapPanic
           | Some m \<Rightarrow> Returns (i\<lparr>Entries := Some (AList.update (Name cv) (e @ [cv]) m)\<rparr>)))"

fun Merge_entries :: "('v, 'z) lib_scheme \<Rightarrow> IndexFile \<Rightarrow> BundleEntries \<Rightarrow> IndexFile outcome" where
  "Merge_entries lib i [] = Returns i"
| "Merge_entries lib i (cv # cvs) =
     (case Merge_entry lib i cv of
        Panics msg \<Rightarrow> Panics msg
      | Returns i' \<Rightarrow> Merge_entries lib i' cvs)"

fun Merge_slices :: "('v, 'z) lib_scheme \<Rightarrow> IndexFile \<Rightarrow> BundleEntries list \<Rightarrow> IndexFile outcome" where
  "Merge_slices lib i [] = Returns i"
| "Merge_slices lib i (cvs # rest) =
     (case Merge_entries lib i cvs of
        Panics msg \<Rightarrow> Panics msg
      | Returns i' \<Rightarrow> Merge_slices lib i' rest)"

definition Merge :: "('v, 'z) lib_scheme \<Rightarrow> IndexFile \<Rightarrow> IndexFile \<Rightarrow> IndexFile outcome" where
  "Merge lib i f = Merge_slices lib i (map snd (entriesOf f))"

text \<open>\<open>loadIndex\<close>. \<open>json.Unmarshal\<close> into an \<open>IndexFile\<close> is a parameter.\<close>

definition loadIndex ::
  "(bytes \<Rightarrow> error + IndexFile) \<Rightarrow> ('v, 'z) lib_scheme \<Rightarrow> bytes \<Rightarrow> error + IndexFile" where
  "loadIndex json_Unmarshal_IndexFile lib d =
     (case json_Unmarshal_IndexFile d of
        Inl err \<Rightarrow> Inl err
      | Inr i \<Rightarrow> Inr (SortEntries lib i))"

text \<open>\<open>LoadIndexFile\<close>.\<close>

definition LoadIndexFile ::
  "(string \<Rightarrow> error + bytes) \<Rightarrow> (bytes \<Rightarrow> error + IndexFile) \<Rightarrow> ('v, 'z) lib_scheme \<Rightarrow> string
   \<Rightarrow> error + IndexFile" where
  "LoadIndexFile readFile json_Unmarshal_IndexFile lib p =
     (case readFile p of
        Inl err \<Rightarrow> Inl err
      | Inr b \<Rightarrow> loadIndex json_Unmarshal_IndexFile lib b)"

text \<open>\<open>IndexFile.WriteFile\<close>.\<close>

definition IndexFile_WriteFile ::
  "(IndexFile \<Rightarrow> error + bytes) \<Rightarrow> (string \<Rightarrow> error option) \<Rightarrow> IndexFile \<Rightarrow> string \<Rightarrow> world
   \<Rightarrow> error option \<times> world" where
  "IndexFile_WriteFile marshal werr i dest w =
     (case marshal i of
        Inl err \<Rightarrow> (Some err, w)
      | Inr b \<Rightarrow> ioutil_WriteFile werr dest b w)"

section \<open>Notions used to state the properties of the catalog\<close>


text \<open>An entry satisfies a constraint when its version parses and the constraint accepts
  the parsed version.\<close>

definition satisfies :: "('v, 'z) lib_scheme \<Rightarrow> ('v \<Rightarrow> bool) \<Rightarrow> BundleEntry \<Rightarrow> bool" where
  "satisfies lib c e = (case NewVersion lib (Version e) of Inl err \<Rightarrow> False | Inr v \<Rightarrow> c v)"

text \<open>\<open>Less\<close> of \<open>BundleEntries\<close> on two entries rather than on two positions.\<close>

definition entry_Less :: "('v, 'z) lib_scheme \<Rightarrow> BundleEntry \<Rightarrow> BundleEntry \<Rightarrow> bool" where
  "entry_Less lib x y =
     (case NewVersion lib (Version x) of
        Inl err \<Rightarrow> True
      | Inr i \<Rightarrow>
          (case NewVersion lib (Version y) of
             Inl err \<Rightarrow> False
           | Inr j \<Rightarrow> LessThan lib i j))"

text \<open>
  \<open>precedes lib x y\<close>: \<open>x\<close> may stand before \<open>y\<close> in a list in canonical order, that is,
  \<open>y\<close> does not parse, or both parse and the version of \<open>x\<close> is not less than that of
  \<open>y\<close>. A list is canonical when every entry may stand before every later one:
  descending by parsed version, the entries that do not parse after all those that do.
\<close>

definition precedes :: "('v, 'z) lib_scheme \<Rightarrow> BundleEntry \<Rightarrow> BundleEntry \<Rightarrow> bool" where
  "precedes lib x y =
     (case NewVersion lib (Version y) of
        Inl err \<Rightarrow> True
      | Inr vy \<Rightarrow>
          (case NewVersion lib (Version x) of
             Inl err \<Rightarrow> False
           | Inr vx \<Rightarrow> \<not> LessThan lib vx vy))"

definition canonical :: "('v, 'z) lib_scheme \<Rightarrow> BundleEntries \<Rightarrow> bool" where
  "canonical lib vs = sorted_wrt (precedes lib) vs"


text \<open>What the sort needs of \<open>LessThan\<close>: it is asymmetric, and an element that is not
  comparable with two others does not separate them (a strict weak order).\<close>

definition strict_weak_order :: "('v \<Rightarrow> 'v \<Rightarrow> bool) \<Rightarrow> bool" where
  "strict_weak_order lt \<longleftrightarrow>
     (\<forall>a b. lt a b \<longrightarrow> \<not> lt b a) \<and> (\<forall>a b c. lt a c \<longrightarrow> lt a b \<or> lt b c)"

text \<open>
  Insertion into a sorted prefix, on lists: \<open>insert_back r x rp\<close> takes the prefix
  reversed (its head is the element just before \<open>x\<close>) and moves \<open>x\<close> towards the front
  while \<open>r x p\<close> holds of the element \<open>p\<close> before it, as the inner loop of
  \<open>insertionSort\<close> does by swaps. \<open>insertion\<close> inserts the elements one after the other.
\<close>

fun insert_back :: "('a \<Rightarrow> 'a \<Rightarrow> bool) \<Rightarrow> 'a \<Rightarrow> 'a list \<Rightarrow> 'a list" where
  "insert_back r x [] = [x]"
| "insert_back r x (p # rp) = (if r x p then p # insert_back r x rp else x # p # rp)"

definition insertion :: "('a \<Rightarrow> 'a \<Rightarrow> bool) \<Rightarrow> 'a list \<Rightarrow> 'a list" where
  "insertion r xs = rev (foldl (\<lambda>rp x. insert_back r x rp) [] xs)"


subsection \<open>Notions used to show that \<open>sort.Sort\<close> sorts\<close>

text \<open>
  The interface of a list whose \<open>Less\<close> compares two elements by \<open>R\<close>. \<open>R\<close> is a comparison
  for the order \<open>le\<close> when a true answer \<open>R x y\<close> means \<open>le x y\<close>, a false one means
  \<open>le y x\<close>, and \<open>le\<close> is transitive: \<open>R\<close> may answer either way on two elements that
  \<open>le\<close> ties, as \<open>Less\<close> of \<open>BundleEntries\<close> does on two versions that do not parse.
\<close>

definition listInterface :: "('a \<Rightarrow> 'a \<Rightarrow> bool) \<Rightarrow> 'a list Interface" where
  "listInterface R =
     \<lparr>Len = length, Less = (\<lambda>d i j. R (d ! i) (d ! j)), Swap = (\<lambda>d i j. d[i := d ! j, j := d ! i])\<rparr>"

definition comparison :: "('a \<Rightarrow> 'a \<Rightarrow> bool) \<Rightarrow> ('a \<Rightarrow> 'a \<Rightarrow> bool) \<Rightarrow> bool" where
  "comparison R le \<longleftrightarrow>
     (\<forall>x y. R x y \<longrightarrow> le x y) \<and> (\<forall>x y. \<not> R x y \<longrightarrow> le y x)
     \<and> (\<forall>x y z. le x y \<longrightarrow> le y z \<longrightarrow> le x z)"

text \<open>\<open>slice a b d\<close> is \<open>d[a:b]\<close>. \<open>permuted a b d d'\<close>: \<open>d'\<close> is \<open>d\<close> with its elements
  rearranged, those outside \<open>[a, b)\<close> in their places.\<close>

definition slice :: "nat \<Rightarrow> nat \<Rightarrow> 'a list \<Rightarrow> 'a list" where
  "slice a b d = take (b - a) (drop a d)"




text \<open>
  The heap of \<open>heapSort\<close> on \<open>data[first, first+hi)\<close>: \<open>child i j\<close> when \<open>j\<close> is one of the
  two children of \<open>i\<close>; \<open>heap\<close> when no child from \<open>lo\<close> on exceeds its parent;
  \<open>heap_but\<close> when that holds but at \<open>r\<close>, whose children do not exceed its parent;
  \<open>sortedFrom\<close> when every element from \<open>k\<close> on is in its final place.
\<close>

definition child :: "nat \<Rightarrow> nat \<Rightarrow> bool" where
  "child i j \<longleftrightarrow> j = 2 * i + 1 \<or> j = 2 * i + 2"




subsection \<open>Notions used to state the properties of \<open>Merge\<close>\<close>

text \<open>
  \<open>extends i i'\<close>: every list of \<open>i\<close> is still in \<open>i'\<close> under its name, with entries
  added at its end at most. A version is self-satisfying when it parses as a version and
  as a constraint, and the constraint accepts the version.
\<close>

definition extends :: "IndexFile \<Rightarrow> IndexFile \<Rightarrow> bool" where
  "extends i i' \<longleftrightarrow>
     (\<forall>n vs. map_of (entriesOf i) n = Some vs \<longrightarrow>
        (\<exists>vs'. map_of (entriesOf i') n = Some vs' \<and> prefix vs vs'))"

definition selfSatisfying :: "('v, 'z) lib_scheme \<Rightarrow> string \<Rightarrow> bool" where
  "selfSatisfying lib v =
     (case NewVersion lib v of
        Inl err \<Rightarrow> False
      | Inr pv \<Rightarrow>
          (case NewConstraint lib v of
             Inl err \<Rightarrow> False
           | Inr c \<Rightarrow> v \<noteq> [] \<and> c pv))"

text \<open>The entries of an index, whatever their name.\<close>

definition allEntries :: "IndexFile \<Rightarrow> BundleEntry set" where
  "allEntries f = (\<Union>cvs \<in> set (map snd (entriesOf f)). set cvs)"

text \<open>An entry is resolved in an index when it stands in the list of its name, or \<open>Has\<close>
  finds an entry for its name and version.\<close>

definition resolved :: "('v, 'z) lib_scheme \<Rightarrow> IndexFile \<Rightarrow> BundleEntry \<Rightarrow> bool" where
  "resolved lib i cv \<longleftrightarrow>
     cv \<in> set (entriesUnder i (Name cv)) \<or> Has lib i (Name cv) (Version cv) = Returns True"

section \<open>The content store: \<open>LocalStore.signAndWriteBundle\<close>\<close>

text \<open>
  Outside the sources: \<open>fmt.Sprintf("%v", bf)\<close>, taken to be a function of the bundle;
  \<open>digest.OfBuffer\<close>; the key ring of package \<open>signature\<close> (\<open>LoadKeyRing\<close>, \<open>Len\<close>,
  \<open>Keys\<close>, \<open>Key\<close>); \<open>NewSigner(key).Clearsign(bf)\<close>, which returns its bytes together with
  its error; and the two directories of the home.
\<close>

record ('kr, 'k) store_env = fs_env +
  Sprintf_v :: "Bundle \<Rightarrow> bytes"
  digest_OfBuffer :: "bytes \<Rightarrow> error + string"
  SecretKeyRing :: string
  LoadKeyRing :: "string \<Rightarrow> error + 'kr"
  KeyRing_Len :: "'kr \<Rightarrow> nat"
  KeyRing_Keys :: "'kr \<Rightarrow> 'k list"
  KeyRing_Key :: "'kr \<Rightarrow> string \<Rightarrow> error + 'k"
  Clearsign :: "'k \<Rightarrow> Bundle \<Rightarrow> bytes \<times> error option"
  Bundles :: string

text \<open>The last line, \<open>return d, ioutil.WriteFile(filepath.Join(ls.Home.Bundles(), d), data, 0644)\<close>.\<close>

definition writeUnderDigest ::
  "('kr, 'k, 'z) store_env_scheme \<Rightarrow> string \<Rightarrow> bytes \<Rightarrow> world
   \<Rightarrow> (string \<times> error option) outcome \<times> world" where
  "writeUnderDigest env d dat w =
     (case ioutil_WriteFile (WriteFile_error env) (filepath_Join env [Bundles env, d]) dat w of
        (err, w') \<Rightarrow> (Returns (d, err), w'))"

definition signAndWriteBundle ::
  "('kr, 'k, 'z) store_env_scheme \<Rightarrow> Bundle \<Rightarrow> bool \<Rightarrow> string \<Rightarrow> world
   \<Rightarrow> (string \<times> error option) outcome \<times> world" where
  "signAndWriteBundle env bf insecure signer w =
     (if insecure then
        (let dat = Sprintf_v env bf in
         case digest_OfBuffer env dat of
           Inl err \<Rightarrow>
             (Returns ([], Some (ErrorsNew (''cannot compute digest from bundle: '' @ Error err))), w)
         | Inr d \<Rightarrow> writeUnderDigest env d (Sprintf_v env bf) w)
      else
        (case LoadKeyRing env (SecretKeyRing env) of
           Inl err \<Rightarrow> (Returns ([], Some (ErrorsNew (''cannot load keyring: '' @ Error err))), w)
         | Inr kr \<Rightarrow>
             if KeyRing_Len env kr = 0 then
               (Returns ([], Some (ErrorsNew ''no signing keys are present in the keyring'')), w)
             else
               (case KeyRing_Keys env kr of
                  [] \<Rightarrow> (Panics ''runtime error: index out of range'', w)
                | key0 # keys \<Rightarrow>
                    (case (if signer \<noteq> [] then KeyRing_Key env kr signer else Inr key0) of
                       Inl err \<Rightarrow> (Returns ([], Some err), w)
                     | Inr key \<Rightarrow>
                         (case Clearsign env key bf of (dat0, err) \<Rightarrow>
                            let dat = dat0 @ [CHR 0x0A] in
                            (case err of
                               Some e \<Rightarrow>
                                 (Returns ([], Some (ErrorsNew (''cannot sign bundle: '' @ Error e))), w)
                             | None \<Rightarrow>
                                 (case digest_OfBuffer env dat of
                                    Inl err \<Rightarrow>
                                      (Returns ([], Some (ErrorsNew
                                         (''cannot compute digest from bundle: '' @ Error err))), w)
                                  | Inr d \<Rightarrow> writeUnderDigest env d dat w)))))))"

section \<open>The repository generator: \<open>GenerateFromDirectory\<close> of \<open>index.go\<close>\<close>

text \<open>
  Outside the sources: \<open>filepath.Glob\<close> and \<open>filepath.Rel\<close>, the loader (as for the install
  command), \<open>urlutil.URLJoin\<close>, \<open>provenance.DigestFile\<close>, the clock (\<open>time_Now k\<close> is what
  the call number \<open>k\<close> of \<open>time.Now\<close> returns), the JSON encoder, and whether \<open>os.MkdirAll\<close>
  fails.
\<close>

record gen_env = fs_env +
  Glob :: "string \<Rightarrow> error + string list"
  bundle_loader_New :: "string \<Rightarrow> error + (error + Bundle)"
  filepath_Rel :: "string \<Rightarrow> string \<Rightarrow> error + string"
  URLJoin :: "string \<Rightarrow> string list \<Rightarrow> error + string"
  DigestFile :: "string \<Rightarrow> error + string"
  time_Now :: "nat \<Rightarrow> int"
  Marshal_BundleEntry :: "BundleEntry \<Rightarrow> error + bytes"
  Marshal_IndexFile :: "IndexFile \<Rightarrow> error + bytes"
  MkdirAll_error :: "string \<Rightarrow> error option"

text \<open>The state of the loop: the index being built, the world, and the number of calls
  of \<open>time.Now\<close> so far.\<close>

record gen_state =
  index :: IndexFile
  gworld :: world
  clock :: nat

text \<open>The body of the loop for a bundle file that is not skipped. It returns the error
  of an early \<open>return err\<close>, or \<open>None\<close> when the loop goes on.\<close>

definition generateEntry ::
  "gen_env \<Rightarrow> string \<Rightarrow> string \<Rightarrow> string \<Rightarrow> gen_state \<Rightarrow> error option outcome \<times> gen_state" where
  "generateEntry env dir baseURL bundleFile0 st =
     (case bundle_loader_New env bundleFile0 of
        Inl err \<Rightarrow> (Returns (Some err), st)
      | Inr (Inl err) \<Rightarrow> (Returns (Some err), st)
      | Inr (Inr b) \<Rightarrow>
     let entry0 = \<lparr>Name = Bundle_Name b, Version = Bundle_Version b, Home = [], URLs = [],
                    Description = [], Keywords = [], Maintainers = [],
                    Entry_APIVersion = APIVersionV1, Digest = [], Added = 0\<rparr> in
     (case filepath_Rel env dir bundleFile0 of
        Inl err \<Rightarrow> (Returns (Some err), st)
      | Inr fname0 \<Rightarrow>
     (case filepath_Split fname0 of (parentDir, fname) \<Rightarrow>
     let parentURL = (case URLJoin env baseURL [parentDir] of
                        Inl err \<Rightarrow> filepath_Join env [baseURL, parentDir]
                      | Inr u \<Rightarrow> u) in
     (case DigestFile env bundleFile0 of
        Inl err \<Rightarrow> (Returns (Some err), st)
      | Inr hash \<Rightarrow>
     let st1 = st\<lparr>gworld := (gworld st)\<lparr>printed := printed (gworld st)
                     @ [''adding '' @ Name entry0 @ '' '' @ Version entry0]\<rparr>\<rparr>;
         u = (if parentURL \<noteq> [] then
                (case filepath_Split fname of (d, file) \<Rightarrow>
                   (case URLJoin env parentURL [file] of
                      Inl err \<Rightarrow> filepath_Join env [parentURL, file]
                    | Inr u \<Rightarrow> u))
              else fname);
         entry = entry0\<lparr>URLs := [u], Digest := hash, Added := time_Now env (clock st1)\<rparr>;
         st2 = st1\<lparr>clock := Suc (clock st1)\<rparr> in
     (case Add (index st2) entry of
        Panics msg \<Rightarrow> (Panics msg, st2)
      | Returns index' \<Rightarrow>
     let st3 = st2\<lparr>index := index'\<rparr> in
     (case Marshal_BundleEntry env entry of
        Inl err \<Rightarrow> (Returns (Some err), st3)
      | Inr dat \<Rightarrow>
     let tagDir = filepath_Join env [dir, ''repositories'', Name entry, ''tags''] in
     (case MkdirAll_error env tagDir of
        Some err \<Rightarrow> (Returns (Some err), st3)
      | None \<Rightarrow>
     (case ioutil_WriteFile (WriteFile_error env)
             (filepath_Join env [tagDir, Version entry]) dat (gworld st3) of
        (Some err, w') \<Rightarrow> (Returns (Some err), st3\<lparr>gworld := w'\<rparr>)
      | (None, w') \<Rightarrow> (Returns None, st3\<lparr>gworld := w'\<rparr>)))))))))"

text \<open>The loop over the bundle files, with its \<open>// skip the index\<close>.\<close>

fun generateLoop ::
  "gen_env \<Rightarrow> string \<Rightarrow> string \<Rightarrow> string list \<Rightarrow> gen_state \<Rightarrow> error option outcome \<times> gen_state" where
  "generateLoop env dir baseURL [] st = (Returns None, st)"
| "generateLoop env dir baseURL (bundleFile0 # bundles) st =
     (if HasSuffix bundleFile0 ''index.json'' then generateLoop env dir baseURL bundles st
      else
        (case generateEntry env dir baseURL bundleFile0 st of
           (Returns None, st') \<Rightarrow> generateLoop env dir baseURL bundles st'
         | (r, st') \<Rightarrow> (r, st')))"

definition GenerateFromDirectory ::
  "gen_env \<Rightarrow> ('v, 'z) lib_scheme \<Rightarrow> string \<Rightarrow> string \<Rightarrow> world \<Rightarrow> error option outcome \<times> world" where
  "GenerateFromDirectory env lib dir baseURL w =
     (case Glob env (filepath_Join env [dir, ''*.json'']) of
        Inl err \<Rightarrow> (Returns (Some err), w)
      | Inr bundles \<Rightarrow>
     (case Glob env (filepath_Join env [dir, ''**/*.json'']) of
        Inl err \<Rightarrow> (Returns (Some err), w)
      | Inr moreBundles \<Rightarrow>
     (case generateLoop env dir baseURL (bundles @ moreBundles)
             \<lparr>index = NewIndexFile (time_Now env 0), gworld = w, clock = 1\<rparr> of
        (Returns None, st) \<Rightarrow>
          (case IndexFile_WriteFile (Marshal_IndexFile env) (WriteFile_error env)
                  (SortEntries lib (index st)) (filepath_Join env [dir, IndexPath]) (gworld st) of
             (err, w') \<Rightarrow> (Returns err, w'))
      | (r, st) \<Rightarrow> (r, gworld st))))"

text \<open>A list of discovered files without those that end in \<open>index.json\<close>, and an
  environment whose \<open>filepath.Glob\<close> does not report such files.\<close>

definition withoutIndexJson :: "string list \<Rightarrow> string list" where
  "withoutIndexJson bundles = filter (\<lambda>f. \<not> HasSuffix f ''index.json'') bundles"

definition unreported :: "gen_env \<Rightarrow> gen_env" where
  "unreported env =
     env\<lparr>Glob := (\<lambda>pattern. case Glob env pattern of
                                 Inl err \<Rightarrow> Inl err
                               | Inr found \<Rightarrow> Inr (withoutIndexJson found))\<rparr>"

section \<open>Concrete collaborators for evaluation\<close>

text \<open>
  The theorems below hold for every collaborator. To evaluate the functions on concrete
  inputs, the collaborators are given here by tables: a repository that serves one index
  entry with two mirrors (the first answers 404), a reference parser on the references
  that are evaluated, and a claim store and a driver that both fail.
\<close>

definition world0 :: world where
  "world0 = \<lparr>files = Map.empty, logged = [], requests = [], printed = []\<rparr>"

definition demo_bundle :: Bundle where
  "demo_bundle =
     \<lparr>Bundle_Name = ''bundle'', Bundle_Version = ''1.0.0'',
      Bundle_InvocationImage = \<lparr>ImageType = ''docker'', Image = ''example/bundle:1.0.0''\<rparr>\<rparr>"

definition demo_entry :: BundleEntry where
  "demo_entry =
     \<lparr>Name = ''bundle'', Version = ''1.0.0'', Home = [],
      URLs = [''https://mirror1.example.org/bundle.json'',
              ''https://mirror2.example.org/bundle.json''],
      Description = [], Keywords = [], Maintainers = [], Entry_APIVersion = ''v1'',
      Digest = [], Added = 0\<rparr>"

text \<open>An entry whose first mirror cannot be reached, while its second one answers.\<close>

definition down_entry :: BundleEntry where
  "down_entry =
     demo_entry\<lparr>URLs := [''https://down.example.org/bundle.json'',
                          ''https://mirror2.example.org/bundle.json'']\<rparr>"

text \<open>An entry whose only mirror answers 404.\<close>

definition dead_entry :: BundleEntry where
  "dead_entry = demo_entry\<lparr>URLs := [''https://mirror1.example.org/bundle.json'']\<rparr>"

definition demo_parse :: "string \<Rightarrow> error + Reference" where
  "demo_parse s =
     (if s = ''name.example.org/bundle:1.0.0'' then
        Inr \<lparr>domain = ''name.example.org'', path = ''bundle'', tag = ''1.0.0'', digest = []\<rparr>
      else if s = ''name.example.org/bundle'' then
        Inr \<lparr>domain = ''name.example.org'', path = ''bundle'', tag = [], digest = []\<rparr>
      else Inl (ErrorsNew ''invalid reference format''))"

definition demo_http :: "string \<Rightarrow> error + Response" where
  "demo_http url =
     (if url = ''https://name.example.org/repositories/bundle/tags/1.0.0'' then
        Inr \<lparr>StatusCode = 200, Body = ''entry bundle 1.0.0''\<rparr>
      else if url = ''https://mirror1.example.org/bundle.json'' then
        Inr \<lparr>StatusCode = 404, Body = []\<rparr>
      else if url = ''https://mirror2.example.org/bundle.json'' then
        Inr \<lparr>StatusCode = 200, Body = ''manifest bundle 1.0.0''\<rparr>
      else Inl (ErrorsNew ''dial tcp: lookup failed: no such host''))"

text \<open>\<open>filepath.Join\<close> on elements that are clean and not empty: a separator between them.\<close>

fun demo_Join :: "string list \<Rightarrow> string" where
  "demo_Join [] = []"
| "demo_Join [p] = p"
| "demo_Join (p # q # ps) = p @ ''/'' @ demo_Join (q # ps)"

definition demo_resolver_env :: resolver_env where
  "demo_resolver_env =
     \<lparr>filepath_Join = demo_Join,
      WriteFile_error = (\<lambda>p. None),
      DefaultRepository = ''bundles.example.org'',
      Cache = ''/home/duffle/cache'',
      ParseNormalizedNamed = demo_parse,
      http_Get = demo_http,
      Decode_BundleEntry =
        (\<lambda>b. if b = ''entry bundle 1.0.0'' then Inr (Some demo_entry)
             else Inl (ErrorsNew ''unexpected end of JSON input'')),
      Decode_Bundle =
        (\<lambda>b. if b = ''manifest bundle 1.0.0'' then Inr demo_bundle
             else Inl (ErrorsNew ''unexpected end of JSON input'')),
      Marshal_Bundle = (\<lambda>b. Inr (''manifest '' @ Bundle_Name b @ '' '' @ Bundle_Version b))\<rparr>"

definition demo_claim :: "string \<Rightarrow> unit Claim" where
  "demo_claim n = \<lparr>Claim_Name = n, Claim_Bundle = [], Claim_ImageType = [], Claim_Parameters = ()\<rparr>"

definition failing_install_env :: "(unit, unit, unit, unit) install_env" where
  "failing_install_env =
     \<lparr>loader_New = (\<lambda>f. Inr (Inr demo_bundle)),
      prepareDriver = (\<lambda>d. Inr ()),
      loadCredentials = (\<lambda>f. Inr ()),
      claim_New = (\<lambda>n. Inr (demo_claim n)),
      Install_Run = (\<lambda>d c cr. (c, Some (ErrorsNew ''driver exited with status 1''))),
      Store = (\<lambda>c. Some (ErrorsNew ''claim store is read-only'')),
      ioutil_ReadFile = (\<lambda>f. Inl (ErrorsNew ''no such file'')),
      toml_Unmarshal = (\<lambda>b. Inr ()),
      json_Unmarshal = (\<lambda>b. Inr ())\<rparr>"

definition demo_flags :: install_flags where
  "demo_flags =
     \<lparr>installDriver = ''docker'', credentialsFile = [], valuesFile = [],
      bundleFile = ''bundle.json''\<rparr>"


definition store_failing_env :: "(unit, unit, unit, unit) install_env" where
  "store_failing_env = failing_install_env\<lparr>Install_Run := (\<lambda>d c cr. (c, None))\<rparr>"

definition demo_claim1 :: "unit Claim" where
  "demo_claim1 =
     demo_claim ''my_release''
       \<lparr>Claim_Bundle := ''example/bundle:1.0.0'', Claim_ImageType := ''docker''\<rparr>"

subsection \<open>A small semantic-version library\<close>

text \<open>
  Versions \<open>MAJOR.MINOR.PATCH\<close> of decimal numbers, compared component by component;
  any other text fails to parse. The constraint \<open>*\<close> accepts every version, a constraint
  that is a version accepts that version, and any other text is an improper constraint.
\<close>

fun position :: "'a \<Rightarrow> 'a list \<Rightarrow> nat \<Rightarrow> nat option" where
  "position x [] k = None"
| "position x (y # ys) k = (if x = y then Some k else position x ys (Suc k))"

definition digitOf :: "char \<Rightarrow> nat option" where
  "digitOf c = position c ''0123456789'' 0"

fun natOf :: "string \<Rightarrow> nat \<Rightarrow> nat option" where
  "natOf [] acc = Some acc"
| "natOf (c # cs) acc = (case digitOf c of None \<Rightarrow> None | Some d \<Rightarrow> natOf cs (10 * acc + d))"

definition parseNat :: "string \<Rightarrow> nat option" where
  "parseNat s = (if s = [] then None else natOf s 0)"

definition demo_NewVersion :: "string \<Rightarrow> error + nat \<times> nat \<times> nat" where
  "demo_NewVersion s =
     (case cutFirst ''.'' s of
        None \<Rightarrow> Inl (ErrorsNew ''Invalid Semantic Version'')
      | Some (a, r) \<Rightarrow>
          (case cutFirst ''.'' r of
             None \<Rightarrow> Inl (ErrorsNew ''Invalid Semantic Version'')
           | Some (b, c) \<Rightarrow>
               (case (parseNat a, parseNat b, parseNat c) of
                  (Some x, Some y, Some z) \<Rightarrow> Inr (x, y, z)
                | _ \<Rightarrow> Inl (ErrorsNew ''Invalid Semantic Version''))))"

definition demo_LessThan :: "nat \<times> nat \<times> nat \<Rightarrow> nat \<times> nat \<times> nat \<Rightarrow> bool" where
  "demo_LessThan v w =
     (case (v, w) of ((a, b, c), (x, y, z)) \<Rightarrow>
        a < x \<or> (a = x \<and> (b < y \<or> (b = y \<and> c < z))))"

definition demo_NewConstraint :: "string \<Rightarrow> error + (nat \<times> nat \<times> nat \<Rightarrow> bool)" where
  "demo_NewConstraint s =
     (if s = ''*'' then Inr (\<lambda>v. True)
      else (case demo_NewVersion s of
              Inr v \<Rightarrow> Inr (\<lambda>w. w = v)
            | Inl err \<Rightarrow> Inl (ErrorsNew (''improper constraint: '' @ s))))"

definition demo_lib :: "(nat \<times> nat \<times> nat) lib" where
  "demo_lib =
     \<lparr>NewVersion = demo_NewVersion, LessThan = demo_LessThan,
      NewConstraint = demo_NewConstraint\<rparr>"

text \<open>Entries and catalogs.\<close>

definition mkEntry :: "string \<Rightarrow> string \<Rightarrow> string \<Rightarrow> BundleEntry" where
  "mkEntry n v d =
     \<lparr>Name = n, Version = v, Home = [], URLs = [], Description = d, Keywords = [],
      Maintainers = [], Entry_APIVersion = ''v1'', Digest = [], Added = 0\<rparr>"

definition mkCatalog :: "(string \<times> BundleEntries) list \<Rightarrow> IndexFile" where
  "mkCatalog m = \<lparr>APIVersion = ''v1'', Generated = 0, Entries = Some m, PublicKeys = []\<rparr>"


text \<open>A catalog of two entries whose versions are tags, not semantic versions.\<close>

definition tags_catalog :: IndexFile where
  "tags_catalog =
     mkCatalog
       [(''app'', [mkEntry ''app'' ''latest'' ''first'', mkEntry ''app'' ''canary'' ''second''])]"


text \<open>Two catalogs to merge: the second has another record of \<open>app 1.0.0\<close>, a new version
  of \<open>app\<close>, and a new name.\<close>

definition first_catalog :: IndexFile where
  "first_catalog = mkCatalog [(''app'', [mkEntry ''app'' ''1.0.0'' ''first record''])]"

definition second_catalog :: IndexFile where
  "second_catalog =
     mkCatalog
       [(''app'', [mkEntry ''app'' ''1.0.0'' ''second record'', mkEntry ''app'' ''2.0.0'' []]),
        (''db'', [mkEntry ''db'' ''0.1.0'' []])]"

definition merged_catalog :: IndexFile where
  "merged_catalog =
     mkCatalog
       [(''app'', [mkEntry ''app'' ''1.0.0'' ''first record'', mkEntry ''app'' ''2.0.0'' []]),
        (''db'', [mkEntry ''db'' ''0.1.0'' []])]"

subsection \<open>A JSON decoder for index files, a content store and a repository directory\<close>

text \<open>The document \<open>{}\<close> decodes and leaves every field of the \<open>IndexFile\<close> at its zero
  value; text that is not JSON does not decode.\<close>

definition demo_Unmarshal_IndexFile :: "bytes \<Rightarrow> error + IndexFile" where
  "demo_Unmarshal_IndexFile d =
     (if d = ''{}'' then Inr \<lparr>APIVersion = [], Generated = 0, Entries = None, PublicKeys = []\<rparr>
      else Inl (ErrorsNew ''invalid character looking for beginning of value''))"

text \<open>A store whose \<open>%v\<close> prints the bundle as \<open>fmt\<close> prints the pointer to the struct,
  whose digest is a toy one (the length of the data), and whose key ring is a list of
  key names; signing puts a header line before the formatted bundle.\<close>

definition demo_Sprintf_v :: "Bundle \<Rightarrow> bytes" where
  "demo_Sprintf_v b =
     ''&{'' @ Bundle_Name b @ '' '' @ Bundle_Version b @ '' {''
     @ ImageType (Bundle_InvocationImage b) @ '' '' @ Image (Bundle_InvocationImage b)
     @ ''} [] map[] map[]}''"

definition demo_store_env :: "(string list, string) store_env" where
  "demo_store_env =
     \<lparr>filepath_Join = demo_Join,
      WriteFile_error = (\<lambda>p. None),
      Sprintf_v = demo_Sprintf_v,
      digest_OfBuffer = (\<lambda>b. Inr (''len'' @ decimal (length b))),
      SecretKeyRing = ''/home/duffle/secret.ring'',
      LoadKeyRing = (\<lambda>p. Inr [''alice'', ''bob'']),
      KeyRing_Len = length,
      KeyRing_Keys = (\<lambda>kr. kr),
      KeyRing_Key = (\<lambda>kr s. if s \<in> set kr then Inr s else Inl (ErrorsNew ''key not found'')),
      Clearsign = (\<lambda>k b. (''signed by '' @ k @ '': '' @ demo_Sprintf_v b, None)),
      Bundles = ''/home/duffle/bundles''\<rparr>"

text \<open>The manifest of \<open>demo_bundle\<close> as JSON text, and a decoder that knows this document.\<close>

definition quoted :: "string \<Rightarrow> string" where
  "quoted s = CHR 0x22 # s @ [CHR 0x22]"

definition demo_manifest :: bytes where
  "demo_manifest =
     ''{'' @ quoted ''name'' @ '':'' @ quoted ''bundle'' @ '',''
     @ quoted ''version'' @ '':'' @ quoted ''1.0.0'' @ '',''
     @ quoted ''invocationImage'' @ '':{''
     @ quoted ''imageType'' @ '':'' @ quoted ''docker'' @ '',''
     @ quoted ''image'' @ '':'' @ quoted ''example/bundle:1.0.0'' @ ''}}''"

definition demo_Unmarshal_Bundle :: "bytes \<Rightarrow> error + Bundle" where
  "demo_Unmarshal_Bundle d =
     (if d = demo_manifest then Inr demo_bundle
      else Inl (ErrorsNew ''invalid character looking for beginning of value''))"

section \<open>Installation: which error is returned, and the claim is stored once\<close>

lemma install_reaches_run:
  assumes "prepareInstall env renv args flags w = (Returns (Inr (driverImpl, c, creds)), w1)"
  shows "install env renv args flags w
           = (case runAndStore env driverImpl c creds w1 of
                (err, stored, w2) \<Rightarrow> (Returns err, stored, w2))"
  using assms by (simp add: install_def)

lemma runAndStore_result:
  assumes "Install_Run env driverImpl c creds = (c1, err)"
  shows "runAndStore env driverImpl c creds w
           = ((case err of Some e \<Rightarrow> Some (ErrorsNew (''Install step failed: '' @ Error e))
                         | None \<Rightarrow> Store env c1),
              [c1], w\<lparr>printed := printed w @ [''Executing install action...'']\<rparr>)"
  using assms by (simp add: runAndStore_def Let_def split: option.splits)

lemma install_result:
  assumes "prepareInstall env renv args flags w = (Returns (Inr (driverImpl, c, creds)), w1)"
    and "Install_Run env driverImpl c creds = (c1, err)"
  shows "install env renv args flags w
           = (Returns (case err of Some e \<Rightarrow> Some (ErrorsNew (''Install step failed: '' @ Error e))
                                 | None \<Rightarrow> Store env c1),
              [c1], w1\<lparr>printed := printed w1 @ [''Executing install action...'']\<rparr>)"
  by (simp add: install_reaches_run [OF assms(1)] runAndStore_result [OF assms(2)])

text \<open>
  C1 (as the code has it). For every install invocation that reaches the driver
  execution step: when the execution fails, the error returned is the execution error
  wrapped as \<open>Install step failed: ...\<close>, whether or not storing the claim failed as well, so
  the execution error has priority; the error of the claim store is what is returned
  when the execution succeeded.
\<close>

theorem install_execution_error_first:
  assumes "prepareInstall env renv args flags w = (Returns (Inr (driverImpl, c, creds)), w1)"
    and "Install_Run env driverImpl c creds = (c1, err)"
  shows "(\<forall>e. err = Some e \<longrightarrow>
            fst (install env renv args flags w)
              = Returns (Some (ErrorsNew (''Install step failed: '' @ Error e))))
       \<and> (err = None \<longrightarrow> fst (install env renv args flags w) = Returns (Store env c1))"
  by (simp add: install_result [OF assms])

lemma demo_prepareInstall:
  assumes "loader_New env = (\<lambda>f. Inr (Inr demo_bundle))"
    and "prepareDriver env = (\<lambda>d. Inr ())"
    and "loadCredentials env = (\<lambda>f. Inr ())"
    and "claim_New env = (\<lambda>n. Inr (demo_claim n))"
  shows "prepareInstall env demo_resolver_env [''my_release''] demo_flags world0
           = (Returns (Inr ((), demo_claim1, ())), world0)"
  by (simp add: prepareInstall_def bundleFileOrArg2_def demo_flags_def loadBundle_def
      assms validateImage_def validateDockerish_def Contains_def
      demo_bundle_def demo_claim_def demo_claim1_def)

lemma failing_prepareInstall:
  "prepareInstall failing_install_env demo_resolver_env [''my_release''] demo_flags world0
     = (Returns (Inr ((), demo_claim1, ())), world0)"
  by (rule demo_prepareInstall) (simp_all add: failing_install_env_def)

lemma store_failing_prepareInstall:
  "prepareInstall store_failing_env demo_resolver_env [''my_release''] demo_flags world0
     = (Returns (Inr ((), demo_claim1, ())), world0)"
  by (rule demo_prepareInstall) (simp_all add: store_failing_env_def failing_install_env_def)


theorem install_execution_error_first_witness:
  "fst (install failing_install_env demo_resolver_env [''my_release''] demo_flags world0)
     = Returns (Some (ErrorsNew ''Install step failed: driver exited with status 1''))
   \<and> fst (install store_failing_env demo_resolver_env [''my_release''] demo_flags world0)
     = Returns (Some (ErrorsNew ''claim store is read-only''))"
proof -
  have r1: "Install_Run failing_install_env () demo_claim1 ()
             = (demo_claim1, Some (ErrorsNew ''driver exited with status 1''))"
    by (simp add: failing_install_env_def)
  have r2: "Install_Run store_failing_env () demo_claim1 () = (demo_claim1, None)"
    by (simp add: store_failing_env_def)
  have s2: "Store store_failing_env demo_claim1 = Some (ErrorsNew ''claim store is read-only'')"
    by (simp add: store_failing_env_def failing_install_env_def)
  from install_execution_error_first [OF failing_prepareInstall r1]
       install_execution_error_first [OF store_failing_prepareInstall r2] s2
  show ?thesis by simp
qed

text \<open>
  C1 as the specification states it fails: in this run both the driver execution and the
  storing of the claim fail, and the error returned is not the error of the claim store.
\<close>

theorem install_persistence_priority_counterexample:
  "snd (Install_Run failing_install_env () demo_claim1 ())
     = Some (ErrorsNew ''driver exited with status 1'')
   \<and> Store failing_install_env demo_claim1 = Some (ErrorsNew ''claim store is read-only'')
   \<and> install failing_install_env demo_resolver_env [''my_release''] demo_flags world0
     = (Returns (Some (ErrorsNew ''Install step failed: driver exited with status 1'')),
        [demo_claim1], world0\<lparr>printed := [''Executing install action...'']\<rparr>)
   \<and> fst (install failing_install_env demo_resolver_env [''my_release''] demo_flags world0)
     \<noteq> Returns (Store failing_install_env demo_claim1)"
  by (simp add: install_def failing_prepareInstall runAndStore_def)
     (simp add: failing_install_env_def world0_def)



section \<open>Reference resolution: the lookup URL and the mirrors\<close>

lemma fetchMirrors_requests:
  "\<exists>rest. requests (snd (fetchMirrors env entry urls w)) = requests w @ rest"
proof (induction urls arbitrary: w)
  case Nil
  show ?case by simp
next
  case (Cons url urls)
  show ?case
  proof (cases "http_Get env url")
    case (Inl err)
    then show ?thesis by simp
  next
    case (Inr resp)
    show ?thesis
    proof (cases "StatusCode resp \<noteq> http_StatusOK")
      case True
      obtain rest where
        "requests (snd (fetchMirrors env entry urls
            (w\<lparr>requests := requests w @ [url],
               logged := logged w @ [nonOKLine url resp]\<rparr>)))
         = requests w @ [url] @ rest"
        using Cons.IH [of "w\<lparr>requests := requests w @ [url],
                              logged := logged w @ [nonOKLine url resp]\<rparr>"]
        by auto
      with Inr True show ?thesis by (simp add: Let_def)
    next
      case False
      with Inr show ?thesis
        by (auto simp: Let_def Bundle_WriteFile_def ioutil_WriteFile_def
            split: sum.splits option.splits prod.splits)
    qed
  qed
qed

lemma protoAndName_cut:
  "protoAndName bundleName =
     (case cutFirst ''://'' bundleName of None \<Rightarrow> (''https'', bundleName) | Some (a, b) \<Rightarrow> (a, b))"
  by (simp add: protoAndName_def SplitN2_def split: option.splits)

lemma taggedRef_accepted:
  assumes "IsNameOnly r \<or> NamedTagged r"
  shows "taggedRef r = Inr (r\<lparr>tag := (if tag r = [] then ''latest'' else tag r)\<rparr>)"
  using assms by (auto simp: taggedRef_def IsNameOnly_def NamedTagged_def WithTag_def)

lemma getBundleFile_first_request:
  assumes "protoAndName bundleName = (proto, name)"
    and "ParseNormalizedNamed env name = Inr r"
    and "taggedRef r = Inr ref"
  shows "\<exists>rest. requests (snd (getBundleFile env bundleName w))
           = requests w @ lookupURL env proto ref # rest"
proof -
  let ?url = "lookupURL env proto ref"
  let ?w1 = "w\<lparr>requests := requests w @ [?url]\<rparr>"
  show ?thesis
  proof (cases "http_Get env ?url")
    case (Inl err)
    with assms show ?thesis by (simp add: getBundleFile_def Let_def)
  next
    case (Inr resp)
    show ?thesis
    proof (cases "StatusCode resp \<noteq> http_StatusOK")
      case True
      with Inr assms show ?thesis by (simp add: getBundleFile_def Let_def)
    next
      case False
      show ?thesis
      proof (cases "Decode_BundleEntry env (Body resp)")
        case (Inl err)
        with False Inr assms show ?thesis by (simp add: getBundleFile_def Let_def)
      next
        case ent: (Inr eo)
        show ?thesis
        proof (cases eo)
          case None
          with ent False Inr assms show ?thesis by (simp add: getBundleFile_def Let_def)
        next
          case (Some entry)
          obtain rest where
            "requests (snd (fetchMirrors env entry (URLs entry) ?w1)) = requests ?w1 @ rest"
            using fetchMirrors_requests by blast
          with Some ent False Inr assms show ?thesis
            by (auto simp: getBundleFile_def Let_def split: prod.splits)
        qed
      qed
    qed
  qed
qed

text \<open>
  C9. For every bundle reference that the resolver accepts (the name parses, and the
  reference is name-only or tagged): the protocol is the text before \<open>://\<close>, and \<open>https\<close>
  when there is no such separator; the tag is \<open>latest\<close> when the reference has none; the
  domain is the configured default repository when the parsed reference has none; and
  the URL requested first is
  \<open>protocol://domain/repositories/<path>/tags/<tag>\<close>.
\<close>

theorem getBundleFile_lookup_url:
  assumes "ParseNormalizedNamed env
             (case cutFirst ''://'' bundleName of None \<Rightarrow> bundleName | Some (a, b) \<Rightarrow> b) = Inr r"
    and "IsNameOnly r \<or> NamedTagged r"
  shows "\<exists>rest. requests (snd (getBundleFile env bundleName w))
           = requests w @
             ((case cutFirst ''://'' bundleName of None \<Rightarrow> ''https'' | Some (a, b) \<Rightarrow> a)
              @ ''://'' @ (if domain r = [] then DefaultRepository env else domain r)
              @ ''/repositories/'' @ path r
              @ ''/tags/'' @ (if tag r = [] then ''latest'' else tag r)) # rest"
proof -
  obtain proto name where pn: "protoAndName bundleName = (proto, name)"
    by (cases "protoAndName bundleName")
  from pn have proto: "proto = (case cutFirst ''://'' bundleName of None \<Rightarrow> ''https'' | Some (a, b) \<Rightarrow> a)"
    and name: "name = (case cutFirst ''://'' bundleName of None \<Rightarrow> bundleName | Some (a, b) \<Rightarrow> b)"
    by (auto simp: protoAndName_cut split: option.splits)
  from assms(1) name have parse: "ParseNormalizedNamed env name = Inr r" by simp
  note tr = taggedRef_accepted [OF assms(2)]
  from getBundleFile_first_request [OF pn parse tr, of w]
  show ?thesis by (simp add: lookupURL_def proto Let_def)
qed

theorem getBundleFile_lookup_url_witness:
  "hd (requests (snd (getBundleFile demo_resolver_env ''name.example.org/bundle:1.0.0'' world0)))
     = ''https://name.example.org/repositories/bundle/tags/1.0.0''
   \<and> hd (requests (snd (getBundleFile demo_resolver_env ''name.example.org/bundle'' world0)))
     = ''https://name.example.org/repositories/bundle/tags/latest''
   \<and> hd (requests (snd (getBundleFile demo_resolver_env ''http://name.example.org/bundle:1.0.0'' world0)))
     = ''http://name.example.org/repositories/bundle/tags/1.0.0''"
proof -
  have c1: "cutFirst ''://'' ''name.example.org/bundle:1.0.0'' = None" by simp
  have c2: "cutFirst ''://'' ''name.example.org/bundle'' = None" by simp
  have c3: "cutFirst ''://'' ''http://name.example.org/bundle:1.0.0''
              = Some (''http'', ''name.example.org/bundle:1.0.0'')" by simp
  let ?r1 = "\<lparr>domain = ''name.example.org'', path = ''bundle'', tag = ''1.0.0'', digest = []\<rparr>"
  let ?r2 = "\<lparr>domain = ''name.example.org'', path = ''bundle'', tag = [], digest = []\<rparr>"
  have p1: "ParseNormalizedNamed demo_resolver_env
              (case cutFirst ''://'' ''name.example.org/bundle:1.0.0'' of
                 None \<Rightarrow> ''name.example.org/bundle:1.0.0'' | Some (a, b) \<Rightarrow> b) = Inr ?r1"
    by (simp only: c1 option.case) (simp add: demo_resolver_env_def demo_parse_def)
  have p2: "ParseNormalizedNamed demo_resolver_env
              (case cutFirst ''://'' ''name.example.org/bundle'' of
                 None \<Rightarrow> ''name.example.org/bundle'' | Some (a, b) \<Rightarrow> b) = Inr ?r2"
    by (simp only: c2 option.case) (simp add: demo_resolver_env_def demo_parse_def)
  have p3: "ParseNormalizedNamed demo_resolver_env
              (case cutFirst ''://'' ''http://name.example.org/bundle:1.0.0'' of
                 None \<Rightarrow> ''http://name.example.org/bundle:1.0.0'' | Some (a, b) \<Rightarrow> b) = Inr ?r1"
    by (simp only: c3 option.case prod.case) (simp add: demo_resolver_env_def demo_parse_def)
  have a1: "IsNameOnly ?r1 \<or> NamedTagged ?r1" by (simp add: NamedTagged_def)
  have a2: "IsNameOnly ?r2 \<or> NamedTagged ?r2" by (simp add: IsNameOnly_def)
  from getBundleFile_lookup_url [OF p1 a1, of world0]
       getBundleFile_lookup_url [OF p2 a2, of world0]
       getBundleFile_lookup_url [OF p3 a1, of world0]
  show ?thesis
    by (simp only: c1 c2 c3 option.case prod.case) (auto simp: world0_def)
qed

lemma fetchMirrors_skips:
  assumes "\<forall>u \<in> set pre. \<exists>resp. http_Get env u = Inr resp \<and> StatusCode resp \<noteq> http_StatusOK"
  shows "fetchMirrors env entry (pre @ rest) w
           = fetchMirrors env entry rest
               (w\<lparr>requests := requests w @ pre,
                  logged := logged w @ map (\<lambda>u. nonOKLine u (projr (http_Get env u))) pre\<rparr>)"
  using assms
proof (induction pre arbitrary: w)
  case Nil
  show ?case by simp
next
  case (Cons u pre)
  from Cons.prems obtain resp where
    r: "http_Get env u = Inr resp" "StatusCode resp \<noteq> http_StatusOK"
    by auto
  from Cons.prems have
    "\<forall>u \<in> set pre. \<exists>resp. http_Get env u = Inr resp \<and> StatusCode resp \<noteq> http_StatusOK"
    by simp
  from Cons.IH [OF this] r show ?case by (simp add: Let_def)
qed

lemma fetchMirrors_first_ok:
  assumes "http_Get env u = Inr resp" and "StatusCode resp = http_StatusOK"
    and "ParseReader env (Body resp) = Inr b"
    and "Marshal_Bundle env b = Inr d"
    and "WriteFile_error env (cachePath env b) = None"
  shows "fetchMirrors env entry (u # rest) w
           = (Inr (cachePath env b),
              w\<lparr>requests := requests w @ [u], files := (files w)(cachePath env b \<mapsto> d)\<rparr>)"
  using assms by (simp add: Let_def Bundle_WriteFile_def ioutil_WriteFile_def)

lemma fetchMirrors_transport_error:
  assumes "http_Get env u = Inl err"
  shows "fetchMirrors env entry (u # rest) w = (Inl err, w\<lparr>requests := requests w @ [u]\<rparr>)"
  using assms by (simp add: Let_def)

text \<open>
  C8 (as the code has it). During mirror fallback the URLs of the entry are tried in
  order. While the mirrors \<open>pre\<close> answer with a status other than 200, each is logged and
  skipped. Then: if the next mirror answers 200, its body is parsed as a manifest, the
  manifest is written to the cache as \<open><name>-<version>.json\<close> and that path is returned
  at once, the remaining mirrors untried; if the fetch of the next mirror itself fails,
  resolution stops with that error, the remaining mirrors untried; and if there is no
  next mirror, resolution fails with an error that names all the URLs of the entry.
\<close>

theorem fetchMirrors_fallback:
  assumes "\<forall>u \<in> set pre. \<exists>resp. http_Get env u = Inr resp \<and> StatusCode resp \<noteq> http_StatusOK"
  shows "(\<forall>u rest resp b d.
            URLs entry = pre @ u # rest \<and> http_Get env u = Inr resp
            \<and> StatusCode resp = http_StatusOK \<and> ParseReader env (Body resp) = Inr b
            \<and> Marshal_Bundle env b = Inr d \<and> WriteFile_error env (cachePath env b) = None
            \<longrightarrow> fetchMirrors env entry (URLs entry) w
                = (Inr (filepath_Join env
                          [Cache env, Bundle_Name b @ ''-'' @ Bundle_Version b @ ''.json'']),
                   w\<lparr>requests := requests w @ pre @ [u],
                      logged := logged w @ map (\<lambda>u. nonOKLine u (projr (http_Get env u))) pre,
                      files := (files w)(cachePath env b \<mapsto> d)\<rparr>))
       \<and> (\<forall>u rest err.
            URLs entry = pre @ u # rest \<and> http_Get env u = Inl err
            \<longrightarrow> fetchMirrors env entry (URLs entry) w
                = (Inl err,
                   w\<lparr>requests := requests w @ pre @ [u],
                      logged := logged w @ map (\<lambda>u. nonOKLine u (projr (http_Get env u))) pre\<rparr>))
       \<and> (URLs entry = pre
            \<longrightarrow> fetchMirrors env entry (URLs entry) w
                = (Inl (ErrorsNew (''unable to fetch '' @ Name entry @ '' '' @ Version entry
                          @ '': no requests to the following URLs succeeded: ''
                          @ Sprintf_v_strings pre)),
                   w\<lparr>requests := requests w @ pre,
                      logged := logged w @ map (\<lambda>u. nonOKLine u (projr (http_Get env u))) pre\<rparr>))"
proof (intro conjI allI impI)
  fix u rest resp b d
  assume a: "URLs entry = pre @ u # rest \<and> http_Get env u = Inr resp
            \<and> StatusCode resp = http_StatusOK \<and> ParseReader env (Body resp) = Inr b
            \<and> Marshal_Bundle env b = Inr d \<and> WriteFile_error env (cachePath env b) = None"
  then have "fetchMirrors env entry (URLs entry) w = fetchMirrors env entry (pre @ u # rest) w"
    by simp
  also have "\<dots> = fetchMirrors env entry (u # rest)
               (w\<lparr>requests := requests w @ pre,
                  logged := logged w @ map (\<lambda>u. nonOKLine u (projr (http_Get env u))) pre\<rparr>)"
    by (rule fetchMirrors_skips [OF assms])
  also have "\<dots> = (Inr (cachePath env b),
                   w\<lparr>requests := requests w @ pre @ [u],
                      logged := logged w @ map (\<lambda>u. nonOKLine u (projr (http_Get env u))) pre,
                      files := (files w)(cachePath env b \<mapsto> d)\<rparr>)"
    using a by (simp add: fetchMirrors_first_ok del: fetchMirrors.simps)
  finally show "fetchMirrors env entry (URLs entry) w
                = (Inr (filepath_Join env
                          [Cache env, Bundle_Name b @ ''-'' @ Bundle_Version b @ ''.json'']),
                   w\<lparr>requests := requests w @ pre @ [u],
                      logged := logged w @ map (\<lambda>u. nonOKLine u (projr (http_Get env u))) pre,
                      files := (files w)(cachePath env b \<mapsto> d)\<rparr>)"
    by (simp add: cachePath_def)
next
  fix u rest err
  assume a: "URLs entry = pre @ u # rest \<and> http_Get env u = Inl err"
  then have "fetchMirrors env entry (URLs entry) w = fetchMirrors env entry (pre @ u # rest) w"
    by simp
  also have "\<dots> = fetchMirrors env entry (u # rest)
               (w\<lparr>requests := requests w @ pre,
                  logged := logged w @ map (\<lambda>u. nonOKLine u (projr (http_Get env u))) pre\<rparr>)"
    by (rule fetchMirrors_skips [OF assms])
  finally show "fetchMirrors env entry (URLs entry) w
                = (Inl err,
                   w\<lparr>requests := requests w @ pre @ [u],
                      logged := logged w @ map (\<lambda>u. nonOKLine u (projr (http_Get env u))) pre\<rparr>)"
    using a by (simp add: fetchMirrors_transport_error del: fetchMirrors.simps)
next
  assume a: "URLs entry = pre"
  from fetchMirrors_skips [OF assms, of entry "[]" w] a
  show "fetchMirrors env entry (URLs entry) w
                = (Inl (ErrorsNew (''unable to fetch '' @ Name entry @ '' '' @ Version entry
                          @ '': no requests to the following URLs succeeded: ''
                          @ Sprintf_v_strings pre)),
                   w\<lparr>requests := requests w @ pre,
                      logged := logged w @ map (\<lambda>u. nonOKLine u (projr (http_Get env u))) pre\<rparr>)"
    by simp
qed

lemma demo_http_simps:
  "http_Get demo_resolver_env ''https://mirror1.example.org/bundle.json''
     = Inr \<lparr>StatusCode = 404, Body = []\<rparr>"
  "http_Get demo_resolver_env ''https://mirror2.example.org/bundle.json''
     = Inr \<lparr>StatusCode = 200, Body = ''manifest bundle 1.0.0''\<rparr>"
  "http_Get demo_resolver_env ''https://down.example.org/bundle.json''
     = Inl (ErrorsNew ''dial tcp: lookup failed: no such host'')"
  by (simp_all add: demo_resolver_env_def demo_http_def)

lemma demo_cachePath: "cachePath demo_resolver_env demo_bundle = ''/home/duffle/cache/bundle-1.0.0.json''"
  by (simp add: cachePath_def demo_resolver_env_def demo_bundle_def)

theorem fetchMirrors_fallback_witness:
  "fetchMirrors demo_resolver_env demo_entry (URLs demo_entry) world0
     = (Inr ''/home/duffle/cache/bundle-1.0.0.json'',
        world0\<lparr>requests := [''https://mirror1.example.org/bundle.json'',
                              ''https://mirror2.example.org/bundle.json''],
                 logged := [''request to https://mirror1.example.org/bundle.json responded with a non-200 status code: 404''],
                 files := [''/home/duffle/cache/bundle-1.0.0.json'' \<mapsto> ''manifest bundle 1.0.0'']\<rparr>)
   \<and> fetchMirrors demo_resolver_env down_entry (URLs down_entry) world0
     = (Inl (ErrorsNew ''dial tcp: lookup failed: no such host''),
        world0\<lparr>requests := [''https://down.example.org/bundle.json''], logged := []\<rparr>)
   \<and> fetchMirrors demo_resolver_env dead_entry (URLs dead_entry) world0
     = (Inl (ErrorsNew ''unable to fetch bundle 1.0.0: no requests to the following URLs succeeded: [https://mirror1.example.org/bundle.json]''),
        world0\<lparr>requests := [''https://mirror1.example.org/bundle.json''],
                 logged := [''request to https://mirror1.example.org/bundle.json responded with a non-200 status code: 404'']\<rparr>)"
proof -
  let ?m1 = "''https://mirror1.example.org/bundle.json''"
  let ?m2 = "''https://mirror2.example.org/bundle.json''"
  let ?dn = "''https://down.example.org/bundle.json''"
  have skip1: "\<forall>u \<in> set [?m1]. \<exists>resp. http_Get demo_resolver_env u = Inr resp
                  \<and> StatusCode resp \<noteq> http_StatusOK"
    by (simp add: demo_http_simps http_StatusOK_def)
  have skip0: "\<forall>u \<in> set []. \<exists>resp. http_Get demo_resolver_env u = Inr resp
                  \<and> StatusCode resp \<noteq> http_StatusOK"
    by simp
  have ok: "URLs demo_entry = [?m1] @ ?m2 # []
        \<and> http_Get demo_resolver_env ?m2 = Inr \<lparr>StatusCode = 200, Body = ''manifest bundle 1.0.0''\<rparr>
        \<and> StatusCode \<lparr>StatusCode = 200, Body = ''manifest bundle 1.0.0''\<rparr> = http_StatusOK
        \<and> ParseReader demo_resolver_env (Body \<lparr>StatusCode = 200, Body = ''manifest bundle 1.0.0''\<rparr>)
            = Inr demo_bundle
        \<and> Marshal_Bundle demo_resolver_env demo_bundle = Inr ''manifest bundle 1.0.0''
        \<and> WriteFile_error demo_resolver_env (cachePath demo_resolver_env demo_bundle) = None"
    by (simp add: demo_http_simps http_StatusOK_def demo_entry_def ParseReader_def)
       (simp add: demo_resolver_env_def demo_bundle_def)
  have down: "URLs down_entry = [] @ ?dn # [?m2]
        \<and> http_Get demo_resolver_env ?dn = Inl (ErrorsNew ''dial tcp: lookup failed: no such host'')"
    by (simp add: demo_http_simps down_entry_def)
  have dead: "URLs dead_entry = [?m1]" by (simp add: dead_entry_def)
  have line: "nonOKLine ?m1 (projr (http_Get demo_resolver_env ?m1))
        = ''request to https://mirror1.example.org/bundle.json responded with a non-200 status code: 404''"
    by (simp add: demo_http_simps nonOKLine_def Sprintf_d_def)
  have nv: "Name dead_entry = ''bundle''" "Version dead_entry = ''1.0.0''"
    by (simp_all add: dead_entry_def demo_entry_def)
  have bn: "Bundle_Name demo_bundle = ''bundle''" "Bundle_Version demo_bundle = ''1.0.0''"
    by (simp_all add: demo_bundle_def)
  have jn: "filepath_Join demo_resolver_env [Cache demo_resolver_env, ''bundle-1.0.0.json'']
              = ''/home/duffle/cache/bundle-1.0.0.json''"
    by (simp add: demo_resolver_env_def)
  note t1 = fetchMirrors_fallback [OF skip1, of demo_entry world0]
  note t0 = fetchMirrors_fallback [OF skip0, of down_entry world0]
  note t2 = fetchMirrors_fallback [OF skip1, of dead_entry world0]
  have a: "fetchMirrors demo_resolver_env demo_entry (URLs demo_entry) world0
     = (Inr ''/home/duffle/cache/bundle-1.0.0.json'',
        world0\<lparr>requests := [''https://mirror1.example.org/bundle.json'',
                              ''https://mirror2.example.org/bundle.json''],
                 logged := [''request to https://mirror1.example.org/bundle.json responded with a non-200 status code: 404''],
                 files := [''/home/duffle/cache/bundle-1.0.0.json'' \<mapsto> ''manifest bundle 1.0.0'']\<rparr>)"
    using t1 [THEN conjunct1, rule_format, OF ok]
    by (simp only: line bn demo_cachePath list.map) (simp add: jn world0_def)
  have b: "fetchMirrors demo_resolver_env down_entry (URLs down_entry) world0
     = (Inl (ErrorsNew ''dial tcp: lookup failed: no such host''),
        world0\<lparr>requests := [''https://down.example.org/bundle.json''], logged := []\<rparr>)"
    using t0 [THEN conjunct2, THEN conjunct1, rule_format, OF down]
    by (simp add: world0_def)
  have c: "fetchMirrors demo_resolver_env dead_entry (URLs dead_entry) world0
     = (Inl (ErrorsNew ''unable to fetch bundle 1.0.0: no requests to the following URLs succeeded: [https://mirror1.example.org/bundle.json]''),
        world0\<lparr>requests := [''https://mirror1.example.org/bundle.json''],
                 logged := [''request to https://mirror1.example.org/bundle.json responded with a non-200 status code: 404'']\<rparr>)"
    using t2 [THEN conjunct2, THEN conjunct2, rule_format, OF dead]
    by (simp only: line nv list.map) (simp add: world0_def Sprintf_v_strings_def)
  from a b c show ?thesis by simp
qed

text \<open>
  C8 as the specification states it fails: a mirror whose fetch fails is not logged and
  skipped. Here the first mirror cannot be reached and the second one answers; the
  resolution stops with the error of the first, nothing is logged, and the second mirror,
  from which the manifest would have been fetched, is never asked.
\<close>

theorem mirror_failure_skipped_counterexample:
  "URLs down_entry = [''https://down.example.org/bundle.json'',
                      ''https://mirror2.example.org/bundle.json'']
   \<and> fetchMirrors demo_resolver_env down_entry (URLs down_entry) world0
     = (Inl (ErrorsNew ''dial tcp: lookup failed: no such host''),
        world0\<lparr>requests := [''https://down.example.org/bundle.json'']\<rparr>)
   \<and> fst (fetchMirrors demo_resolver_env down_entry
            [''https://mirror2.example.org/bundle.json''] world0)
     = Inr ''/home/duffle/cache/bundle-1.0.0.json''"
proof -
  have u: "URLs down_entry = [''https://down.example.org/bundle.json'',
                              ''https://mirror2.example.org/bundle.json'']"
    by (simp add: down_entry_def)
  have a: "fetchMirrors demo_resolver_env down_entry
             [''https://down.example.org/bundle.json'',
              ''https://mirror2.example.org/bundle.json''] world0
           = (Inl (ErrorsNew ''dial tcp: lookup failed: no such host''),
              world0\<lparr>requests := [''https://down.example.org/bundle.json'']\<rparr>)"
    using fetchMirrors_transport_error [OF demo_http_simps(3), of down_entry _ world0]
    by (simp add: world0_def)
  have "fetchMirrors demo_resolver_env down_entry
          [''https://mirror2.example.org/bundle.json''] world0
        = (Inr (cachePath demo_resolver_env demo_bundle),
           world0\<lparr>requests := requests world0 @ [''https://mirror2.example.org/bundle.json''],
                    files := (files world0)(cachePath demo_resolver_env demo_bundle
                                \<mapsto> ''manifest bundle 1.0.0'')\<rparr>)"
    by (rule fetchMirrors_first_ok [OF demo_http_simps(2)])
       (simp_all add: http_StatusOK_def ParseReader_def demo_resolver_env_def demo_bundle_def)
  then have b: "fst (fetchMirrors demo_resolver_env down_entry
                  [''https://mirror2.example.org/bundle.json''] world0)
                = Inr ''/home/duffle/cache/bundle-1.0.0.json''"
    by (simp add: demo_cachePath)
  from u a b show ?thesis by simp
qed

section \<open>\<open>sort.Sort\<close> sorts\<close>

text \<open>
  The lemmas of this section are about \<open>sort.Sort\<close> on a list with a \<open>Less\<close> that is a
  comparison for an order \<open>le\<close>: the result holds the elements of the list, sorted by
  \<open>le\<close>.
\<close>

subsection \<open>Slices and rearrangements\<close>

lemma Less_list [simp]: "Less (listInterface R) d i j = R (d ! i) (d ! j)"
  by (simp add: listInterface_def)

lemma Swap_list [simp]: "Swap (listInterface R) d i j = d[i := d ! j, j := d ! i]"
  by (simp add: listInterface_def)

lemma Len_list [simp]: "Len (listInterface R) = length"
  by (simp add: listInterface_def)

lemma comparison_Less: "comparison R le \<Longrightarrow> R x y \<Longrightarrow> le x y"
  by (simp add: comparison_def)

lemma comparison_not_Less: "comparison R le \<Longrightarrow> \<not> R x y \<Longrightarrow> le y x"
  by (simp add: comparison_def)

lemma comparison_trans: "comparison R le \<Longrightarrow> le x y \<Longrightarrow> le y z \<Longrightarrow> le x z"
  unfolding comparison_def by blast








lemma length_slice: "b \<le> length d \<Longrightarrow> length (slice a b d) = b - a"
  by (simp add: slice_def)












subsection \<open>The slices of at most 12 elements\<close>

lemma inner_insert:
  assumes "length bef = a"
  shows "insertionSort_inner (listInterface R) a (a + length pre) (bef @ pre @ x # post)
           = bef @ rev (insert_back R x (rev pre)) @ post"
proof (induction pre arbitrary: post rule: rev_induct)
  case Nil
  show ?case by (cases a) simp_all
next
  case (snoc p pre)
  let ?d = "bef @ (pre @ [p]) @ x # post"
  have j: "a + length (pre @ [p]) = Suc (a + length pre)" by simp
  have x: "?d ! Suc (a + length pre) = x" using assms by (simp add: nth_append)
  have p: "?d ! (a + length pre) = p" using assms by (simp add: nth_append)
  have sw: "?d[Suc (a + length pre) := p, a + length pre := x] = bef @ pre @ x # p # post"
    using assms by (simp add: list_update_append)
  show ?case
  proof (cases "R x p")
    case True
    with snoc.IH [of "p # post"] x p sw show ?thesis
      unfolding j by simp
  next
    case False
    with x p show ?thesis unfolding j by simp
  qed
qed

lemma length_insert_back: "length (insert_back r x rp) = Suc (length rp)"
  by (induction rp) auto

lemma length_insertion: "length (insertion r xs) = length xs"
proof -
  have "length (foldl (\<lambda>rp x. insert_back r x rp) acc xs) = length acc + length xs" for acc
    by (induction xs arbitrary: acc) (auto simp: length_insert_back)
  then show ?thesis by (simp add: insertion_def)
qed

lemma insertion_snoc:
  "insertion r (xs @ [x]) = rev (insert_back r x (rev (insertion r xs)))"
  by (simp add: insertion_def)

lemma set_insert_back: "set (insert_back r x rp) = insert x (set rp)"
  by (induction rp) auto

lemma mset_insert_back: "mset (insert_back r x rp) = add_mset x (mset rp)"
  by (induction rp) auto

lemma mset_insertion: "mset (insertion r xs) = mset xs"
proof -
  have "mset (foldl (\<lambda>rp x. insert_back r x rp) acc xs) = mset acc + mset xs" for acc
    by (induction xs arbitrary: acc) (auto simp: mset_insert_back)
  then show ?thesis by (simp add: insertion_def)
qed

lemma insertionSort_steps:
  assumes "a + n \<le> length d"
  shows "foldl (\<lambda>d i. insertionSort_inner (listInterface R) a i d) d [a + 1..<a + n]
           = take a d @ insertion R (slice a (a + n) d) @ drop (a + n) d"
  using assms
proof (induction n)
  case 0
  show ?case by (simp add: insertion_def slice_def)
next
  case (Suc n)
  show ?case
  proof (cases "n = 0")
    case True
    from Suc.prems have "a < length d" by simp
    then have "slice a (Suc a) d = [d ! a]"
      by (simp add: slice_def take_Suc_conv_app_nth)
    moreover have "take a d @ d ! a # drop (Suc a) d = d"
      using \<open>a < length d\<close> by (simp add: id_take_nth_drop [symmetric])
    ultimately show ?thesis using True by (simp add: insertion_def)
  next
    case False
    let ?k = "a + n"
    let ?pre = "insertion R (slice a ?k d)"
    from Suc.prems have k: "?k < length d" by simp
    have up: "[a + 1..<a + Suc n] = [a + 1..<?k] @ [?k]" using False by simp
    have len: "length ?pre = n" using k by (simp add: length_insertion length_slice)
    have dr: "drop ?k d = d ! ?k # drop (Suc ?k) d" using k by (simp add: Cons_nth_drop_Suc)
    have sl: "slice a (Suc ?k) d = slice a ?k d @ [d ! ?k]"
      using k by (simp add: slice_def take_Suc_conv_app_nth)
    have la: "length (take a d) = a" using k by simp
    have "foldl (\<lambda>d i. insertionSort_inner (listInterface R) a i d) d [a + 1..<a + Suc n]
          = insertionSort_inner (listInterface R) a (a + length ?pre)
              (take a d @ ?pre @ d ! ?k # drop (Suc ?k) d)"
      using Suc.IH k False by (simp add: up dr len)
    also have "\<dots> = take a d @ rev (insert_back R (d ! ?k) (rev ?pre)) @ drop (Suc ?k) d"
      by (rule inner_insert [OF la])
    also have "\<dots> = take a d @ insertion R (slice a (a + Suc n) d) @ drop (a + Suc n) d"
      by (simp add: sl insertion_snoc)
    finally show ?thesis .
  qed
qed

lemma insertionSort_insertion:
  assumes "a \<le> b" "b \<le> length d"
  shows "insertionSort (listInterface R) a b d
           = take a d @ insertion R (slice a b d) @ drop b d"
  using insertionSort_steps [of a "b - a" d R] assms by (simp add: insertionSort_def)

lemma insert_back_sorted:
  assumes "comparison R le" and "sorted_wrt (\<lambda>a b. le b a) rp"
  shows "sorted_wrt (\<lambda>a b. le b a) (insert_back R x rp)"
  using assms(2)
proof (induction rp)
  case Nil
  show ?case by simp
next
  case (Cons p rp)
  show ?case
  proof (cases "R x p")
    case True
    with Cons comparison_Less [OF assms(1) True] show ?thesis
      by (auto simp: set_insert_back)
  next
    case False
    from comparison_not_Less [OF assms(1) False] have px: "le p x" .
    with Cons.prems have "\<forall>y \<in> set rp. le y x"
      using comparison_trans [OF assms(1)] by auto
    with Cons.prems px False show ?thesis by auto
  qed
qed

lemma insertion_sorted:
  assumes "comparison R le"
  shows "sorted_wrt le (insertion R xs)"
proof -
  have "sorted_wrt (\<lambda>a b. le b a) acc \<Longrightarrow>
        sorted_wrt (\<lambda>a b. le b a) (foldl (\<lambda>rp x. insert_back R x rp) acc xs)" for acc
    by (induction xs arbitrary: acc) (auto simp: insert_back_sorted [OF assms])
  from this [of "[]"] show ?thesis
    by (simp add: insertion_def sorted_wrt_rev)
qed




subsection \<open>\<open>doPivot\<close>\<close>









lemma doPivot_below_stop: "\<not> a < c \<Longrightarrow> doPivot_below data d pivot a c = a"
  by (subst doPivot_below.simps) simp









subsection \<open>\<open>heapSort\<close>\<close>










subsection \<open>\<open>quickSort\<close> and \<open>Sort\<close>\<close>






section \<open>Sorting the entries\<close>

text \<open>\<open>Less\<close> of the reversed \<open>BundleEntries\<close> is a comparison for \<open>precedes\<close>.\<close>

lemma Reverse_listInterface:
  "Reverse (BundleEntries_Interface lib) = listInterface (\<lambda>x y. entry_Less lib y x)"
  by (simp add: Reverse_def BundleEntries_Interface_def listInterface_def BundleEntries_Less_def
      entry_Less_def BundleEntries_Swap_def fun_eq_iff)

lemma passed_precedes:
  assumes "strict_weak_order (LessThan lib)" and "entry_Less lib p x"
  shows "precedes lib x p"
  using assms
  by (auto simp: strict_weak_order_def entry_Less_def precedes_def split: sum.splits)

lemma stopped_precedes:
  assumes "\<not> entry_Less lib p x"
  shows "precedes lib p x"
  using assms by (auto simp: entry_Less_def precedes_def split: sum.splits)

lemma precedes_trans:
  assumes "strict_weak_order (LessThan lib)" and "precedes lib x y" and "precedes lib y z"
  shows "precedes lib x z"
proof -
  from assms(1) have nt: "\<And>a b c. LessThan lib a c \<Longrightarrow> LessThan lib a b \<or> LessThan lib b c"
    unfolding strict_weak_order_def by blast
  from assms(2,3) show ?thesis
    by (auto simp: precedes_def split: sum.splits dest: nt)
qed

lemma precedes_comparison:
  assumes "strict_weak_order (LessThan lib)"
  shows "comparison (\<lambda>x y. entry_Less lib y x) (precedes lib)"
  unfolding comparison_def
  using passed_precedes [OF assms] stopped_precedes precedes_trans [OF assms] by blast


text \<open>\<open>insertionSort\<close> alone, by which the later releases of Go sort a slice of at most 12
  elements, gives a list in canonical order as well.\<close>

lemma insertionSort_canonical:
  assumes "strict_weak_order (LessThan lib)"
  shows "canonical lib (insertionSort (Reverse (BundleEntries_Interface lib)) 0 (length d) d)"
    and "mset (insertionSort (Reverse (BundleEntries_Interface lib)) 0 (length d) d) = mset d"
proof -
  have e: "insertionSort (Reverse (BundleEntries_Interface lib)) 0 (length d) d
             = insertion (\<lambda>x y. entry_Less lib y x) d"
    using insertionSort_insertion [of 0 "length d" d "\<lambda>x y. entry_Less lib y x"]
    by (simp add: Reverse_listInterface slice_def)
  show "canonical lib (insertionSort (Reverse (BundleEntries_Interface lib)) 0 (length d) d)"
    unfolding e canonical_def by (rule insertion_sorted [OF precedes_comparison [OF assms]])
  show "mset (insertionSort (Reverse (BundleEntries_Interface lib)) 0 (length d) d) = mset d"
    unfolding e by (rule mset_insertion)
qed

subsection \<open>Sorting a sorted list again\<close>















section \<open>Lookup in the catalog\<close>












section \<open>Merging catalogs\<close>

lemma extends_refl: "extends i i"
  by (auto simp: extends_def)

lemma extends_trans: "extends i j \<Longrightarrow> extends j k \<Longrightarrow> extends i k"
  unfolding extends_def by (meson prefix_order.trans)

lemma extends_entriesUnder:
  assumes "extends i i'"
  shows "prefix (entriesUnder i n) (entriesUnder i' n)"
proof (cases "map_of (entriesOf i) n")
  case None
  then show ?thesis by (simp add: entriesUnder_def)
next
  case (Some vs)
  with assms obtain vs' where "map_of (entriesOf i') n = Some vs'" "prefix vs vs'"
    unfolding extends_def by blast
  with Some show ?thesis by (simp add: entriesUnder_def)
qed

lemma entriesUnder_mem:
  assumes "e \<in> set (entriesUnder i n)"
  obtains vs where "map_of (entriesOf i) n = Some vs" and "e \<in> set vs"
  using assms by (cases "map_of (entriesOf i) n") (auto simp: entriesUnder_def)

lemma Get_loop_append:
  assumes "Get_loop lib co name version vs = Returns (Inr e)"
  shows "Get_loop lib co name version (vs @ ext) = Returns (Inr e)"
  using assms by (induction vs) (auto split: sum.splits option.splits if_splits)

lemma Get_extends:
  assumes "extends i i'" and "Get lib i name version = Returns (Inr e)"
  shows "Get lib i' name version = Returns (Inr e)"
proof -
  from assms(2) obtain vs where vs: "map_of (entriesOf i) name = Some vs" "vs \<noteq> []"
    by (auto simp: Get_def split: option.splits if_splits)
  with assms(1) obtain ext where ext: "map_of (entriesOf i') name = Some (vs @ ext)"
    by (auto simp: extends_def prefix_def)
  from assms(2) vs ext show ?thesis
    by (auto simp: Get_def Get_loop_append split: sum.splits if_splits)
qed

lemma Has_True_iff:
  "Has lib i name version = Returns True \<longleftrightarrow> (\<exists>e. Get lib i name version = Returns (Inr e))"
  by (auto simp: Has_def split: outcome.splits sum.splits)

lemma Has_extends:
  assumes "extends i i'" and "Has lib i name version = Returns True"
  shows "Has lib i' name version = Returns True"
  using assms Get_extends unfolding Has_True_iff by blast

lemma Get_loop_returns: "\<exists>r. Get_loop lib (Some c) name version vs = Returns r"
  by (induction vs) (auto split: sum.splits)

lemma Has_returns:
  assumes "NewConstraint lib ''*'' = Inr star"
  shows "\<exists>b. Has lib i name version = Returns b"
proof -
  have "\<exists>r. Get lib i name version = Returns r"
    using assms Get_loop_returns [of lib _ name version]
    by (auto simp: Get_def split: option.splits sum.splits)
  then show ?thesis by (auto simp: Has_def split: sum.splits)
qed

lemma Get_loop_finds:
  assumes "e \<in> set vs" and "satisfies lib c e"
  shows "\<exists>e'. Get_loop lib (Some c) name version vs = Returns (Inr e')"
  using assms by (induction vs) (auto simp: satisfies_def split: sum.splits)

lemma Has_selfSatisfying:
  assumes "map_of (entriesOf i) n = Some vs" and "e \<in> set vs"
    and "selfSatisfying lib (Version e)"
  shows "Has lib i n (Version e) = Returns True"
proof -
  from assms(3) obtain pv c where
    pc: "NewVersion lib (Version e) = Inr pv" "NewConstraint lib (Version e) = Inr c"
        "Version e \<noteq> []" "c pv"
    by (auto simp: selfSatisfying_def split: sum.splits)
  then have "satisfies lib c e" by (simp add: satisfies_def)
  from Get_loop_finds [OF assms(2) this] obtain e' where
    "Get_loop lib (Some c) n (Version e) vs = Returns (Inr e')" by blast
  with assms(1,2) pc have "Get lib i n (Version e) = Returns (Inr e')"
    by (auto simp: Get_def)
  then show ?thesis unfolding Has_True_iff by blast
qed

text \<open>One step of the merge.\<close>

lemma map_of_entriesOf_update:
  assumes "Entries i = Some m"
  shows "map_of (entriesOf (i\<lparr>Entries := Some (AList.update k v m)\<rparr>))
           = (map_of (entriesOf i))(k \<mapsto> v)"
  using assms by (simp add: entriesOf_def update_conv')

lemma Merge_entry_cases:
  assumes "Merge_entry lib i cv = Returns i'"
  shows "(Has lib i (Name cv) (Version cv) = Returns True \<and> i' = i)
       \<or> (Has lib i (Name cv) (Version cv) = Returns False \<and> Entries i' \<noteq> None
          \<and> map_of (entriesOf i')
              = (map_of (entriesOf i))(Name cv \<mapsto> entriesUnder i (Name cv) @ [cv]))"
  using assms
  by (auto simp: Merge_entry_def Let_def map_of_entriesOf_update
      split: outcome.splits bool.splits option.splits)

lemma Merge_entry_extends:
  assumes "Merge_entry lib i cv = Returns i'"
  shows "extends i i'"
  using Merge_entry_cases [OF assms]
  by (auto simp: extends_def entriesUnder_def)

lemma Merge_entry_under:
  assumes "Merge_entry lib i cv = Returns i'"
  shows "set (entriesUnder i' n) \<subseteq> set (entriesUnder i n) \<union> (if n = Name cv then {cv} else {})"
  using Merge_entry_cases [OF assms]
  by (auto simp: entriesUnder_def split: option.splits)

lemma Merge_entry_resolved:
  assumes "Merge_entry lib i cv = Returns i'"
  shows "cv \<in> set (entriesUnder i' (Name cv)) \<or> Has lib i' (Name cv) (Version cv) = Returns True"
  using Merge_entry_cases [OF assms]
  by (auto simp: entriesUnder_def)

lemma Merge_entry_nonnil:
  assumes "Merge_entry lib i cv = Returns i'" and "Entries i \<noteq> None"
  shows "Entries i' \<noteq> None"
  using Merge_entry_cases [OF assms(1)] assms(2) by auto

lemma Merge_entry_returns:
  assumes "NewConstraint lib ''*'' = Inr star" and "Entries i \<noteq> None"
  shows "\<exists>i'. Merge_entry lib i cv = Returns i'"
  using Has_returns [OF assms(1), of i "Name cv" "Version cv"] assms(2)
  by (auto simp: Merge_entry_def Let_def split: bool.splits)

lemma resolved_extends:
  assumes "extends i i'" and "resolved lib i cv"
  shows "resolved lib i' cv"
  using assms Has_extends [OF assms(1)] extends_entriesUnder [OF assms(1), of "Name cv"]
  by (auto simp: resolved_def dest: set_mono_prefix)

lemma Merge_entries_props:
  assumes "Merge_entries lib i cvs = Returns i'"
  shows "extends i i'
       \<and> (\<forall>cv \<in> set cvs. resolved lib i' cv)
       \<and> (\<forall>n. set (entriesUnder i' n) \<subseteq> set (entriesUnder i n) \<union> {cv \<in> set cvs. Name cv = n})
       \<and> (Entries i \<noteq> None \<longrightarrow> Entries i' \<noteq> None)"
  using assms
proof (induction cvs arbitrary: i)
  case Nil
  then show ?case by (simp add: extends_refl)
next
  case (Cons cv cvs)
  from Cons.prems obtain j where
    j: "Merge_entry lib i cv = Returns j" and r: "Merge_entries lib j cvs = Returns i'"
    by (auto split: outcome.splits)
  note ih = Cons.IH [OF r]
  from ih have e: "extends j i'" by simp
  have 1: "extends i i'" using extends_trans [OF Merge_entry_extends [OF j] e] .
  have "resolved lib j cv" using Merge_entry_resolved [OF j] by (simp add: resolved_def)
  then have 2: "resolved lib i' cv" by (rule resolved_extends [OF e])
  have 3: "set (entriesUnder i' n) \<subseteq> set (entriesUnder i n) \<union> {c \<in> set (cv # cvs). Name c = n}" for n
    using ih Merge_entry_under [OF j, of n] by (auto split: if_splits)
  have 4: "Entries i \<noteq> None \<longrightarrow> Entries i' \<noteq> None"
    using ih Merge_entry_nonnil [OF j] by blast
  from 1 2 3 4 ih show ?case by simp
qed

lemma Merge_entries_returns:
  assumes "NewConstraint lib ''*'' = Inr star" and "Entries i \<noteq> None"
  shows "\<exists>i'. Merge_entries lib i cvs = Returns i'"
  using assms(2)
proof (induction cvs arbitrary: i)
  case Nil
  show ?case by simp
next
  case (Cons cv cvs)
  from Merge_entry_returns [OF assms(1) Cons.prems] obtain j where
    j: "Merge_entry lib i cv = Returns j" by blast
  from Merge_entry_nonnil [OF j Cons.prems] have "Entries j \<noteq> None" .
  from Cons.IH [OF this] j show ?case by simp
qed

lemma Merge_slices_props:
  assumes "Merge_slices lib i css = Returns i'"
  shows "extends i i'
       \<and> (\<forall>cvs \<in> set css. \<forall>cv \<in> set cvs. resolved lib i' cv)
       \<and> (\<forall>n. set (entriesUnder i' n)
              \<subseteq> set (entriesUnder i n) \<union> {cv \<in> (\<Union>cvs \<in> set css. set cvs). Name cv = n})
       \<and> (Entries i \<noteq> None \<longrightarrow> Entries i' \<noteq> None)"
  using assms
proof (induction css arbitrary: i)
  case Nil
  then show ?case by (simp add: extends_refl)
next
  case (Cons cvs css)
  from Cons.prems obtain j where
    j: "Merge_entries lib i cvs = Returns j" and r: "Merge_slices lib j css = Returns i'"
    by (auto split: outcome.splits)
  note p = Merge_entries_props [OF j]
  note ih = Cons.IH [OF r]
  from ih have e: "extends j i'" by simp
  have 1: "extends i i'" using extends_trans [of i j i'] p e by blast
  have 2: "\<forall>cv \<in> set cvs. resolved lib i' cv"
    using p resolved_extends [OF e] by blast
  have 3: "set (entriesUnder i' n)
             \<subseteq> set (entriesUnder i n) \<union> {cv \<in> (\<Union>cvs \<in> set (cvs # css). set cvs). Name cv = n}" for n
  proof -
    from ih have "set (entriesUnder i' n)
             \<subseteq> set (entriesUnder j n) \<union> {cv \<in> (\<Union>cvs \<in> set css. set cvs). Name cv = n}" by blast
    moreover from p have "set (entriesUnder j n)
             \<subseteq> set (entriesUnder i n) \<union> {cv \<in> set cvs. Name cv = n}" by blast
    ultimately show ?thesis by auto
  qed
  have 4: "Entries i \<noteq> None \<longrightarrow> Entries i' \<noteq> None" using p ih by blast
  from 1 2 3 4 ih show ?case by simp
qed

lemma Merge_slices_returns:
  assumes "NewConstraint lib ''*'' = Inr star" and "Entries i \<noteq> None"
  shows "\<exists>i'. Merge_slices lib i css = Returns i'"
  using assms(2)
proof (induction css arbitrary: i)
  case Nil
  show ?case by simp
next
  case (Cons cvs css)
  from Merge_entries_returns [OF assms(1) Cons.prems] obtain j where
    j: "Merge_entries lib i cvs = Returns j" by blast
  from Merge_entries_props [OF j] Cons.prems have "Entries j \<noteq> None" by blast
  from Cons.IH [OF this] j show ?case by simp
qed

text \<open>
  What \<open>Merge\<close> guarantees. For all catalogs \<open>A\<close>, with an allocated map of entries, and
  \<open>B\<close>, \<open>A.Merge(B)\<close> returns and is additive: every list of \<open>A\<close> is afterwards the list
  it was with entries added at its end at most, so no entry of \<open>A\<close> is replaced or
  changed; every entry of a list of \<open>A\<close> was there before or is an entry of \<open>B\<close> of that
  name; every entry of \<open>B\<close> stands afterwards in the list of its name, or \<open>A.Has\<close> finds
  an entry for its name and version, the version taken as a constraint; and afterwards
  \<open>A.Has(n, v)\<close> holds for every (n, v) of an entry of \<open>A\<close> or \<open>B\<close> whose version is
  self-satisfying: it parses as a version and as a constraint that accepts it.
\<close>

theorem Merge_additive:
  assumes "Entries A \<noteq> None" and "NewConstraint lib ''*'' = Inr star"
  shows "\<exists>A'. Merge lib A B = Returns A'
       \<and> extends A A'
       \<and> (\<forall>n. set (entriesUnder A' n) \<subseteq> set (entriesUnder A n) \<union> {cv \<in> allEntries B. Name cv = n})
       \<and> (\<forall>cv \<in> allEntries B.
             cv \<in> set (entriesUnder A' (Name cv)) \<or> Has lib A' (Name cv) (Version cv) = Returns True)
       \<and> (\<forall>cv \<in> allEntries B.
             selfSatisfying lib (Version cv) \<longrightarrow> Has lib A' (Name cv) (Version cv) = Returns True)
       \<and> (\<forall>n. \<forall>e \<in> set (entriesUnder A n).
             selfSatisfying lib (Version e) \<longrightarrow> Has lib A' n (Version e) = Returns True)"
proof -
  from Merge_slices_returns [OF assms(2,1)] obtain A' where
    m: "Merge_slices lib A (map snd (entriesOf B)) = Returns A'" by blast
  note p = Merge_slices_props [OF m]
  from p have ext: "extends A A'" by simp
  from p have res: "\<forall>cv \<in> allEntries B. resolved lib A' cv"
    by (auto simp: allEntries_def)
  have under: "set (entriesUnder A' n) \<subseteq> set (entriesUnder A n) \<union> {cv \<in> allEntries B. Name cv = n}" for n
    using p unfolding allEntries_def by blast
  have selfB: "Has lib A' (Name cv) (Version cv) = Returns True"
    if cv: "cv \<in> allEntries B" and s: "selfSatisfying lib (Version cv)" for cv
  proof -
    from res cv have "resolved lib A' cv" by blast
    then show ?thesis
    proof (unfold resolved_def, elim disjE)
      assume "cv \<in> set (entriesUnder A' (Name cv))"
      then obtain vs where "map_of (entriesOf A') (Name cv) = Some vs" "cv \<in> set vs"
        by (rule entriesUnder_mem)
      from Has_selfSatisfying [OF this s] show ?thesis .
    qed
  qed
  have selfA: "Has lib A' n (Version e) = Returns True"
    if e: "e \<in> set (entriesUnder A n)" and s: "selfSatisfying lib (Version e)" for n e
  proof -
    from e extends_entriesUnder [OF ext, of n] have "e \<in> set (entriesUnder A' n)"
      by (auto dest: set_mono_prefix)
    then obtain vs where "map_of (entriesOf A') n = Some vs" "e \<in> set vs"
      by (rule entriesUnder_mem)
    from Has_selfSatisfying [OF this s] show ?thesis .
  qed
  from m ext under res selfB selfA show ?thesis
    unfolding Merge_def resolved_def by blast
qed



theorem Merge_additive_witness:
  "Merge demo_lib first_catalog second_catalog = Returns merged_catalog
   \<and> entriesUnder merged_catalog ''app''
     = entriesUnder first_catalog ''app'' @ [mkEntry ''app'' ''2.0.0'' []]
   \<and> Has demo_lib merged_catalog ''app'' ''1.0.0'' = Returns True
   \<and> Has demo_lib merged_catalog ''app'' ''2.0.0'' = Returns True
   \<and> Has demo_lib merged_catalog ''db'' ''0.1.0'' = Returns True"
proof -
  have n: "Entries first_catalog \<noteq> None" by (simp add: first_catalog_def mkCatalog_def)
  have c: "NewConstraint demo_lib ''*'' = Inr (\<lambda>v. True)"
    by (simp add: demo_lib_def demo_NewConstraint_def)
  have m: "Merge demo_lib first_catalog second_catalog = Returns merged_catalog" by code_simp
  have b1: "mkEntry ''app'' ''2.0.0'' [] \<in> allEntries second_catalog"
    and b2: "mkEntry ''db'' ''0.1.0'' [] \<in> allEntries second_catalog"
    by (simp_all add: allEntries_def second_catalog_def mkCatalog_def entriesOf_def)
  have a1: "mkEntry ''app'' ''1.0.0'' ''first record'' \<in> set (entriesUnder first_catalog ''app'')"
    by (simp add: entriesUnder_def first_catalog_def mkCatalog_def entriesOf_def)
  have s: "selfSatisfying demo_lib ''1.0.0''" "selfSatisfying demo_lib ''2.0.0''"
    "selfSatisfying demo_lib ''0.1.0''"
    by code_simp+
  have v: "Version (mkEntry n v d) = v" "Name (mkEntry n v d) = n" for n v d
    by (simp_all add: mkEntry_def)
  from Merge_additive [OF n c, of second_catalog] obtain A' where
    A: "Merge demo_lib first_catalog second_catalog = Returns A'"
    and hB: "\<forall>cv \<in> allEntries second_catalog.
             selfSatisfying demo_lib (Version cv) \<longrightarrow>
             Has demo_lib A' (Name cv) (Version cv) = Returns True"
    and hA: "\<forall>n. \<forall>e \<in> set (entriesUnder first_catalog n).
             selfSatisfying demo_lib (Version e) \<longrightarrow>
             Has demo_lib A' n (Version e) = Returns True"
    by blast
  from A m have A': "A' = merged_catalog" by simp
  from hB [rule_format, OF b1] s(2) have h1: "Has demo_lib merged_catalog ''app'' ''2.0.0'' = Returns True"
    by (simp add: v A')
  from hB [rule_format, OF b2] s(3) have h2: "Has demo_lib merged_catalog ''db'' ''0.1.0'' = Returns True"
    by (simp add: v A')
  from hA [rule_format, OF a1] s(1) have h3: "Has demo_lib merged_catalog ''app'' ''1.0.0'' = Returns True"
    by (simp add: v A')
  have u: "entriesUnder merged_catalog ''app''
     = entriesUnder first_catalog ''app'' @ [mkEntry ''app'' ''2.0.0'' []]"
    by (simp add: entriesUnder_def merged_catalog_def first_catalog_def mkCatalog_def entriesOf_def)
  from m u h1 h2 h3 show ?thesis by simp
qed

text \<open>
  C5. The specification, like the comments of \<open>Has\<close> ("the given name and exact version")
  and of \<open>Merge\<close> ("If one of the entries in the given index does not already exist, it
  is added"), says that the merge is a union keyed by name and exact version, after
  which \<open>Has\<close> holds of every pair that was present. The code tests \<open>Has\<close>, which is
  \<open>Get\<close>, and \<open>Get\<close> takes the version as a constraint. The entries of the catalog
  below have versions that are not constraints: after merging the catalog into an empty
  one \<open>Has\<close> is false for \<open>(app, latest)\<close>, and merging it into itself appends every
  entry a second time.
\<close>

theorem Merge_appends_present_entries_again:
  "mkEntry ''app'' ''latest'' ''first'' \<in> allEntries tags_catalog
   \<and> Merge demo_lib (mkCatalog []) tags_catalog = Returns tags_catalog
   \<and> Has demo_lib tags_catalog ''app'' ''latest'' = Returns False
   \<and> Merge demo_lib tags_catalog tags_catalog
     = Returns (mkCatalog
         [(''app'', [mkEntry ''app'' ''latest'' ''first'', mkEntry ''app'' ''canary'' ''second'',
                     mkEntry ''app'' ''latest'' ''first'', mkEntry ''app'' ''canary'' ''second''])])"
proof -
  have "mkEntry ''app'' ''latest'' ''first'' \<in> allEntries tags_catalog"
    by (simp add: allEntries_def tags_catalog_def mkCatalog_def entriesOf_def)
  moreover have "Merge demo_lib (mkCatalog []) tags_catalog = Returns tags_catalog"
    by code_simp
  moreover have "Has demo_lib tags_catalog ''app'' ''latest'' = Returns False"
    by code_simp
  moreover have "Merge demo_lib tags_catalog tags_catalog
     = Returns (mkCatalog
         [(''app'', [mkEntry ''app'' ''latest'' ''first'', mkEntry ''app'' ''canary'' ''second'',
                     mkEntry ''app'' ''latest'' ''first'', mkEntry ''app'' ''canary'' ''second''])])"
    by code_simp
  ultimately show ?thesis by blast
qed

section \<open>Loading an index\<close>

lemma loadIndex_decoded:
  assumes "json_Unmarshal_IndexFile d = Inr i"
  shows "loadIndex json_Unmarshal_IndexFile lib d = Inr (SortEntries lib i)"
  using assms by (simp add: loadIndex_def)

text \<open>
  C6. The specification, like the comment of \<open>loadIndex\<close>, says that a document that
  decodes but has no API version fails to load with \<open>ErrNoAPIVersion\<close>. The code has no
  such check: the document \<open>{}\<close> loads, and the catalog returned has an empty
  \<open>APIVersion\<close>. (What is loaded is sorted, as the second half of C6 says.)
\<close>

theorem loadIndex_without_APIVersion:
  "loadIndex demo_Unmarshal_IndexFile demo_lib ''{}''
     = Inr \<lparr>APIVersion = [], Generated = 0, Entries = None, PublicKeys = []\<rparr>
   \<and> loadIndex demo_Unmarshal_IndexFile demo_lib ''{}'' \<noteq> Inl ErrNoAPIVersion"
  by (simp add: loadIndex_def demo_Unmarshal_IndexFile_def SortEntries_def)

section \<open>The content store\<close>

lemma writeUnderDigest_stored:
  assumes "writeUnderDigest env d dat w = (Returns (d', None), w')"
  shows "d' = d \<and> files w' (filepath_Join env [Bundles env, d]) = Some dat"
  using assms
  by (auto simp: writeUnderDigest_def ioutil_WriteFile_def split: option.splits)

text \<open>
  C7 (as the code has it). For every bundle stored, on the insecure path and on the
  signed path, the digest returned is the digest of the bytes that the file
  \<open><store>/<digest>\<close> holds. With \<open>insecure\<close> set, these bytes are the bundle value as
  \<open>fmt.Sprintf("%v", bf)\<close> prints it, with nothing added; otherwise they are what
  \<open>Clearsign\<close> returned for the chosen key, followed by a newline.
\<close>

theorem signAndWriteBundle_content_addressed:
  assumes "signAndWriteBundle env bf insecure signer w = (Returns (d, None), w')"
  shows "\<exists>dat. files w' (filepath_Join env [Bundles env, d]) = Some dat
             \<and> digest_OfBuffer env dat = Inr d
             \<and> (insecure \<longrightarrow> dat = Sprintf_v env bf)
             \<and> (\<not> insecure \<longrightarrow> (\<exists>kr key. LoadKeyRing env (SecretKeyRing env) = Inr kr
                    \<and> (if signer \<noteq> [] then KeyRing_Key env kr signer = Inr key
                        else key = hd (KeyRing_Keys env kr))
                    \<and> dat = fst (Clearsign env key bf) @ [CHR 0x0A]))"
proof (cases insecure)
  case True
  with assms obtain d0 where
    d0: "digest_OfBuffer env (Sprintf_v env bf) = Inr d0"
    and wr: "writeUnderDigest env d0 (Sprintf_v env bf) w = (Returns (d, None), w')"
    by (auto simp: signAndWriteBundle_def Let_def split: sum.splits)
  from writeUnderDigest_stored [OF wr] d0 True show ?thesis by auto
next
  case False
  with assms obtain kr key0 keys key dat0 d0 where
    kr: "LoadKeyRing env (SecretKeyRing env) = Inr kr"
    and ks: "KeyRing_Keys env kr = key0 # keys"
    and key: "(if signer \<noteq> [] then KeyRing_Key env kr signer else Inr key0) = Inr key"
    and cs: "Clearsign env key bf = (dat0, None)"
    and d0: "digest_OfBuffer env (dat0 @ [CHR 0x0A]) = Inr d0"
    and wr: "writeUnderDigest env d0 (dat0 @ [CHR 0x0A]) w = (Returns (d, None), w')"
    by (auto simp: signAndWriteBundle_def Let_def
        split: sum.splits if_splits list.splits prod.splits option.splits)
  from key ks have k: "if signer \<noteq> [] then KeyRing_Key env kr signer = Inr key
                       else key = hd (KeyRing_Keys env kr)"
    by (auto split: if_splits)
  from writeUnderDigest_stored [OF wr] d0 False kr k cs show ?thesis by auto
qed

theorem signAndWriteBundle_content_addressed_witness:
  "signAndWriteBundle demo_store_env demo_bundle True [] world0
     = (Returns (''len60'', None),
        world0\<lparr>files := [''/home/duffle/bundles/len60''
                  \<mapsto> ''&{bundle 1.0.0 {docker example/bundle:1.0.0} [] map[] map[]}'']\<rparr>)
   \<and> digest_OfBuffer demo_store_env
        ''&{bundle 1.0.0 {docker example/bundle:1.0.0} [] map[] map[]}'' = Inr ''len60''
   \<and> signAndWriteBundle demo_store_env demo_bundle False ''bob'' world0
     = (Returns (''len76'', None),
        world0\<lparr>files := [''/home/duffle/bundles/len76''
                  \<mapsto> ''signed by bob: &{bundle 1.0.0 {docker example/bundle:1.0.0} [] map[] map[]}''
                      @ [CHR 0x0A]]\<rparr>)
   \<and> digest_OfBuffer demo_store_env
        (''signed by bob: &{bundle 1.0.0 {docker example/bundle:1.0.0} [] map[] map[]}''
         @ [CHR 0x0A]) = Inr ''len76''"
proof -
  have f: "Sprintf_v demo_store_env demo_bundle
             = ''&{bundle 1.0.0 {docker example/bundle:1.0.0} [] map[] map[]}''"
    by (simp add: demo_store_env_def demo_Sprintf_v_def demo_bundle_def)
  have a: "signAndWriteBundle demo_store_env demo_bundle True [] world0
     = (Returns (''len60'', None),
        world0\<lparr>files := [''/home/duffle/bundles/len60''
                  \<mapsto> ''&{bundle 1.0.0 {docker example/bundle:1.0.0} [] map[] map[]}'']\<rparr>)"
    by (simp add: signAndWriteBundle_def f)
       (simp add: writeUnderDigest_def ioutil_WriteFile_def demo_store_env_def world0_def
          demo_Sprintf_v_def demo_bundle_def)
  have b: "signAndWriteBundle demo_store_env demo_bundle False ''bob'' world0
     = (Returns (''len76'', None),
        world0\<lparr>files := [''/home/duffle/bundles/len76''
                  \<mapsto> ''signed by bob: &{bundle 1.0.0 {docker example/bundle:1.0.0} [] map[] map[]}''
                      @ [CHR 0x0A]]\<rparr>)"
    by (simp add: signAndWriteBundle_def writeUnderDigest_def ioutil_WriteFile_def
        demo_store_env_def demo_Sprintf_v_def demo_bundle_def world0_def)
  from signAndWriteBundle_content_addressed [OF a] signAndWriteBundle_content_addressed [OF b] a b
  show ?thesis
    by (auto simp: f) (simp_all add: demo_store_env_def)
qed

text \<open>
  C7 as the specification states it fails: with \<open>insecure\<close> set, the bytes of the stored
  file are not the input bytes. The store receives the bundle that was parsed from the
  manifest, and writes the bundle as \<open>%v\<close> prints it, which is not the text of the
  manifest.
\<close>

theorem stored_bytes_equal_input_counterexample:
  "ParseBuffer demo_Unmarshal_Bundle demo_manifest = Inr demo_bundle
   \<and> signAndWriteBundle demo_store_env demo_bundle True [] world0
     = (Returns (''len60'', None),
        world0\<lparr>files := [''/home/duffle/bundles/len60''
                  \<mapsto> ''&{bundle 1.0.0 {docker example/bundle:1.0.0} [] map[] map[]}'']\<rparr>)
   \<and> ''&{bundle 1.0.0 {docker example/bundle:1.0.0} [] map[] map[]}'' \<noteq> demo_manifest"
proof -
  have "ParseBuffer demo_Unmarshal_Bundle demo_manifest = Inr demo_bundle"
    by (simp add: ParseBuffer_def demo_Unmarshal_Bundle_def)
  moreover have "signAndWriteBundle demo_store_env demo_bundle True [] world0
     = (Returns (''len60'', None),
        world0\<lparr>files := [''/home/duffle/bundles/len60''
                  \<mapsto> ''&{bundle 1.0.0 {docker example/bundle:1.0.0} [] map[] map[]}'']\<rparr>)"
    by (simp add: signAndWriteBundle_def)
       (simp add: writeUnderDigest_def ioutil_WriteFile_def demo_store_env_def world0_def
          demo_Sprintf_v_def demo_bundle_def)
  moreover have "''&{bundle 1.0.0 {docker example/bundle:1.0.0} [] map[] map[]}'' \<noteq> demo_manifest"
    by (simp add: demo_manifest_def)
  ultimately show ?thesis by blast
qed

section \<open>The repository generator skips what ends in \<open>index.json\<close>\<close>

lemma generateLoop_filter:
  "generateLoop env dir baseURL (withoutIndexJson bundles) st
     = generateLoop env dir baseURL bundles st"
proof (induction bundles arbitrary: st)
  case Nil
  show ?case by (simp add: withoutIndexJson_def)
next
  case (Cons f fs)
  show ?case
  proof (cases "HasSuffix f ''index.json''")
    case True
    with Cons.IH show ?thesis by (simp add: withoutIndexJson_def)
  next
    case False
    with Cons.IH show ?thesis
      by (simp add: withoutIndexJson_def split: prod.splits outcome.splits option.splits)
  qed
qed

lemma HasSuffix_append: "HasSuffix (p @ suf) suf"
  by (simp add: HasSuffix_def)

lemma unreported_others:
  "bundle_loader_New (unreported env) = bundle_loader_New env"
  "filepath_Rel (unreported env) = filepath_Rel env"
  "URLJoin (unreported env) = URLJoin env"
  "DigestFile (unreported env) = DigestFile env"
  "time_Now (unreported env) = time_Now env"
  "Marshal_BundleEntry (unreported env) = Marshal_BundleEntry env"
  "Marshal_IndexFile (unreported env) = Marshal_IndexFile env"
  "MkdirAll_error (unreported env) = MkdirAll_error env"
  "WriteFile_error (unreported env) = WriteFile_error env"
  "filepath_Join (unreported env) = filepath_Join env"
  by (simp_all add: unreported_def)

lemma generateEntry_unreported:
  "generateEntry (unreported env) dir baseURL f st = generateEntry env dir baseURL f st"
  unfolding generateEntry_def unreported_others ..

lemma generateLoop_unreported:
  "generateLoop (unreported env) dir baseURL bundles st = generateLoop env dir baseURL bundles st"
  by (induction bundles arbitrary: st)
     (simp_all add: generateEntry_unreported split: prod.splits outcome.splits option.splits)

lemma GenerateFromDirectory_unreported:
  "GenerateFromDirectory (unreported env) lib dir baseURL w
     = GenerateFromDirectory env lib dir baseURL w"
proof (cases "Glob env (filepath_Join env [dir, ''*.json''])")
  case (Inl err)
  then show ?thesis by (simp add: GenerateFromDirectory_def unreported_def)
next
  case b: (Inr bundles)
  show ?thesis
  proof (cases "Glob env (filepath_Join env [dir, ''**/*.json''])")
    case (Inl err)
    with b show ?thesis by (simp add: GenerateFromDirectory_def unreported_def)
  next
    case (Inr moreBundles)
    let ?st = "\<lparr>index = NewIndexFile (time_Now env 0), gworld = w, clock = 1\<rparr>"
    have "generateLoop (unreported env) dir baseURL
            (withoutIndexJson bundles @ withoutIndexJson moreBundles) ?st
          = generateLoop env dir baseURL (bundles @ moreBundles) ?st"
      using generateLoop_filter [of env dir baseURL "bundles @ moreBundles" ?st]
      by (simp add: generateLoop_unreported withoutIndexJson_def)
    moreover have "Glob (unreported env) (filepath_Join env [dir, ''*.json''])
                     = Inr (withoutIndexJson bundles)"
      "Glob (unreported env) (filepath_Join env [dir, ''**/*.json''])
                     = Inr (withoutIndexJson moreBundles)"
      using b Inr by (simp_all add: unreported_def)
    ultimately show ?thesis
      using b Inr unfolding GenerateFromDirectory_def unreported_others by simp
  qed
qed

text \<open>
  C10. In \<open>GenerateFromDirectory\<close>, every discovered file whose path ends with
  \<open>index.json\<close> is skipped entirely. The generator gives the same result and leaves the
  same files as it does when \<open>filepath.Glob\<close> reports no such file; its loop over any list
  of discovered files ends with the same index, the same files and the same result as
  the loop over the list without those files, so no entry is added and no tag file is
  written for them. This holds of every path \<open>p @ ''index.json''\<close>, wherever it stands
  in the list: the top-level \<open>index.json\<close>, one in a subdirectory, and a name such as
  \<open>my-index.json\<close>.
\<close>

theorem GenerateFromDirectory_skips_index_json:
  "GenerateFromDirectory env lib dir baseURL w
     = GenerateFromDirectory (unreported env) lib dir baseURL w
   \<and> generateLoop env dir baseURL bundles st
     = generateLoop env dir baseURL (withoutIndexJson bundles) st
   \<and> generateLoop env dir baseURL (before @ [p @ ''index.json''] @ after) st
     = generateLoop env dir baseURL (before @ after) st
   \<and> generateLoop env dir baseURL
        [dir @ ''/index.json'', dir @ ''/sub/index.json'', dir @ ''/my-index.json''] st
     = (Returns None, st)"
proof -
  have s: "HasSuffix (q @ ''index.json'') ''index.json''" for q
    by (rule HasSuffix_append)
  have 0: "GenerateFromDirectory env lib dir baseURL w
     = GenerateFromDirectory (unreported env) lib dir baseURL w"
    by (simp add: GenerateFromDirectory_unreported)
  have 1: "generateLoop env dir baseURL bundles st
     = generateLoop env dir baseURL (withoutIndexJson bundles) st"
    by (simp add: generateLoop_filter)
  have "withoutIndexJson (before @ [p @ ''index.json''] @ after)
          = withoutIndexJson (before @ after)"
    using s [of p] by (simp add: withoutIndexJson_def)
  then have 2: "generateLoop env dir baseURL (before @ [p @ ''index.json''] @ after) st
     = generateLoop env dir baseURL (before @ after) st"
    by (metis generateLoop_filter)
  have "HasSuffix (dir @ ''/index.json'') ''index.json''"
    "HasSuffix (dir @ ''/sub/index.json'') ''index.json''"
    "HasSuffix (dir @ ''/my-index.json'') ''index.json''"
    using s [of "dir @ ''/''"] s [of "dir @ ''/sub/''"] s [of "dir @ ''/my-''"] by simp_all
  then have 3: "generateLoop env dir baseURL
        [dir @ ''/index.json'', dir @ ''/sub/index.json'', dir @ ''/my-index.json''] st
     = (Returns None, st)"
    by simp
  from 0 1 2 3 show ?thesis by blast
qed

end
